theory Spec2Isabelle
  imports Main
begin

section \<open>Data model of the reminder backend\<close>

text \<open>
  The embedding follows \<^verbatim>\<open>backend/main.py\<close>. The two SQLite tables are lists of rows in
  insertion order; the job store of the scheduler is a third list. Every function that
  reads or writes them takes the state and returns the state it leaves behind, together
  with the value returned or the exception raised.

  A \<^verbatim>\<open>datetime\<close> is kept as the second that its calendar fields denote when read as
  UTC (counted from 1970-01-01T00:00:00), its microsecond field, and for an aware value
  the UTC offset in seconds.
\<close>

datatype datetime = Naive int nat | Aware int nat int

datatype error =
    HTTPException int string
  | ValueError
  | OverflowError
  | IntegrityError
  | JobLookupError
  | ConflictingIdError

record user =
  uid :: int
  email :: string
  password_hash :: string
  user_created_at :: int

text \<open>One row of the table \<^verbatim>\<open>reminders\<close>; \<open>rem_id\<close> is the column \<^verbatim>\<open>id\<close>.\<close>

record reminder =
  rem_id :: string
  user_id :: int
  title :: string
  body :: "string option"
  when_ts :: int
  created_at :: int
  status :: string
  snooze_until :: "int option"
  recurrence :: "string option"
  repeat_interval :: "int option"
  category :: "string option"
  tags :: "string option"

text \<open>
  A job of the scheduler: its id, the run date of its date trigger (an aware datetime,
  as the trigger holds it), the call arguments.
\<close>

record job =
  job_id :: string
  run_date :: datetime
  args :: "string list"

text \<open>
  A message handed to \<^verbatim>\<open>send_email\<close>. The body is the f-string of the notifier, kept as
  its two interpolated parts: the reminder's body and the datetime whose
  \<^verbatim>\<open>isoformat()\<close> is printed.
\<close>

record mail =
  to_email :: string
  subject :: string
  mail_body :: "string option \<times> datetime"

text \<open>
  The state: the two tables, the job store, and the log of SMTP sessions that
  \<^verbatim>\<open>send_email\<close> opened, each with its outcome.
\<close>

record sys =
  users :: "user list"
  reminders :: "reminder list"
  jobs :: "job list"
  smtp_log :: "(mail \<times> bool) list"

text \<open>
  What the process reads from its environment: the SMTP host, whether an SMTP session for
  a message runs through without an exception, and the UTC offset in seconds of the
  host's local time zone (taken as constant: no daylight saving, no historical offsets).
\<close>

record env =
  SMTP_HOST :: "string option"
  smtp_session_ok :: "mail \<Rightarrow> bool"
  local_utcoffset :: int

text \<open>The request body of \<^verbatim>\<open>POST /reminders\<close> (class \<^verbatim>\<open>ReminderCreateIn\<close>).\<close>

record ReminderCreateIn =
  in_title :: string
  in_body :: "string option"
  in_when :: datetime
  in_recurrence :: "string option"
  in_repeat_interval_seconds :: "int option"
  in_category :: "string option"
  in_tags :: "string option"

text \<open>A row of the answer of \<^verbatim>\<open>GET /reminders\<close>.\<close>

record reminder_out =
  out_id :: string
  out_title :: string
  out_body :: "string option"
  out_when :: int
  out_status :: string
  out_category :: "string option"
  out_tags :: "string option"

text \<open>A row of the answer of \<^verbatim>\<open>GET /notifications/poll\<close>.\<close>

record notification =
  n_id :: string
  n_title :: string
  n_body :: "string option"
  n_when :: int

section \<open>Library behaviour the code relies on\<close>

text \<open>Truth value of an \<^verbatim>\<open>Optional[int]\<close> and of an optional string in Python.\<close>

definition truthy_int :: "int option \<Rightarrow> bool" where
  "truthy_int x = (case x of None \<Rightarrow> False | Some n \<Rightarrow> n \<noteq> 0)"

definition truthy_str :: "string option \<Rightarrow> bool" where
  "truthy_str x = (case x of None \<Rightarrow> False | Some s \<Rightarrow> s \<noteq> [])"

text \<open>
  \<^verbatim>\<open>sqlite3\<close> binds a Python int only when it fits a signed 64-bit INTEGER and raises
  OverflowError otherwise. The check is written out where a bound integer is computed
  from a request; user ids are read from the table \<^verbatim>\<open>users\<close> and always fit.
\<close>

definition sqlite_int :: "int \<Rightarrow> bool" where
  "sqlite_int n = (- (2 ^ 63) \<le> n \<and> n \<le> 2 ^ 63 - 1)"

definition sqlite_int_opt :: "int option \<Rightarrow> bool" where
  "sqlite_int_opt x = (case x of None \<Rightarrow> True | Some n \<Rightarrow> sqlite_int n)"

text \<open>
  \<^verbatim>\<open>datetime.utcfromtimestamp\<close> yields a naive datetime and raises when the year falls
  outside 1..9999: the first second it accepts is 0001-01-01T00:00:00, the last
  9999-12-31T23:59:59. CPython raises ValueError there, and OverflowError or OSError for
  still larger magnitudes; the model has the one error value for all of them.
\<close>

definition MINYEAR_ts :: int where
  "MINYEAR_ts = - 62135596800"

definition MAXYEAR_ts :: int where
  "MAXYEAR_ts = 253402300799"

definition utcfromtimestamp :: "int \<Rightarrow> error + datetime" where
  "utcfromtimestamp ts =
     (if MINYEAR_ts \<le> ts \<and> ts \<le> MAXYEAR_ts then Inr (Naive ts 0) else Inl ValueError)"

text \<open>
  \<^verbatim>\<open>int(x)\<close> for a time \<open>x\<close> given in microseconds: the whole seconds, truncated
  toward zero.
\<close>

definition int_seconds :: "int \<Rightarrow> int" where
  "int_seconds us = (if 0 \<le> us then us div 1000000 else - ((- us) div 1000000))"

text \<open>
  \<^verbatim>\<open>int(dt.timestamp())\<close>. An aware datetime is shifted by its own offset and the
  conversion never raises. A naive one is read in the host's local zone; CPython finds
  the offset by calling \<^verbatim>\<open>localtime\<close> at the wall-clock second itself and one day
  earlier, and raises ValueError when one of these local times leaves the years 1..9999:
  so on the first day of year 1, and where the local reading passes the end of year 9999.
  \<^verbatim>\<open>timestamp()\<close> is a float; the model truncates the exact value, which is what
  \<^verbatim>\<open>int\<close> yields as long as the float holds the microseconds exactly.
\<close>

definition timestamp :: "env \<Rightarrow> datetime \<Rightarrow> error + int" where
  "timestamp e dt =
     (case dt of
        Aware w us off \<Rightarrow> Inr (int_seconds ((w - off) * 1000000 + int us))
      | Naive w us \<Rightarrow>
          if w - 86400 < MINYEAR_ts \<or> w + local_utcoffset e < MINYEAR_ts
             \<or> MAXYEAR_ts < w + local_utcoffset e
          then Inl ValueError
          else Inr (int_seconds ((w - local_utcoffset e) * 1000000 + int us)))"

text \<open>
  The date trigger is built without a time zone: it keeps an aware run date as it is and
  reads a naive one in the host's local zone.
\<close>

definition DateTrigger :: "env \<Rightarrow> datetime \<Rightarrow> datetime" where
  "DateTrigger e when_dt =
     (case when_dt of
        Naive w us \<Rightarrow> Aware w us (local_utcoffset e)
      | Aware w us off \<Rightarrow> Aware w us off)"

text \<open>The instant of a datetime on the UTC time line: its second, and in microseconds.\<close>

definition utc_seconds :: "datetime \<Rightarrow> int" where
  "utc_seconds dt = (case dt of Naive w us \<Rightarrow> w | Aware w us off \<Rightarrow> w - off)"

definition utc_micros :: "datetime \<Rightarrow> int" where
  "utc_micros dt =
     (case dt of
        Naive w us \<Rightarrow> w * 1000000 + int us
      | Aware w us off \<Rightarrow> (w - off) * 1000000 + int us)"

text \<open>
  The job store writes the run date as a UTC timestamp. The conversion goes through the
  UTC datetime and raises OverflowError when that leaves the years 1..9999.
\<close>

definition datetime_to_utc_timestamp :: "datetime \<Rightarrow> error + int" where
  "datetime_to_utc_timestamp dt =
     (if MINYEAR_ts \<le> utc_seconds dt \<and> utc_seconds dt \<le> MAXYEAR_ts
      then Inr (utc_micros dt) else Inl OverflowError)"

text \<open>SQL statements over a table held as a list of rows.\<close>

definition update_where :: "('r \<Rightarrow> bool) \<Rightarrow> ('r \<Rightarrow> 'r) \<Rightarrow> 'r list \<Rightarrow> 'r list" where
  "update_where P f rows = map (\<lambda>r. if P r then f r else r) rows"

definition delete_where :: "('r \<Rightarrow> bool) \<Rightarrow> 'r list \<Rightarrow> 'r list" where
  "delete_where P rows = filter (\<lambda>r. \<not> P r) rows"

definition fetchone :: "'r list \<Rightarrow> 'r option" where
  "fetchone rows = (case rows of [] \<Rightarrow> None | r # _ \<Rightarrow> Some r)"

text \<open>
  The scheduler is library code. Its job store keeps one row per job id:
  \<^verbatim>\<open>remove_job\<close> deletes the rows with the id and raises JobLookupError when there was
  none; \<^verbatim>\<open>add_job\<close> converts the run date first, which may raise, then raises
  ConflictingIdError when the id is taken, and appends the job otherwise.
\<close>

definition remove_job :: "string \<Rightarrow> job list \<Rightarrow> error + job list" where
  "remove_job jid js =
     (if \<exists>j \<in> set js. job_id j = jid
      then Inr (delete_where (\<lambda>j. job_id j = jid) js)
      else Inl JobLookupError)"

definition add_job :: "job \<Rightarrow> job list \<Rightarrow> error + job list" where
  "add_job j js =
     (case datetime_to_utc_timestamp (run_date j) of
        Inl err \<Rightarrow> Inl err
      | Inr _ \<Rightarrow>
          if \<exists>k \<in> set js. job_id k = job_id j then Inl ConflictingIdError
          else Inr (js @ [j]))"

text \<open>
  A job whose run time was missed by more than this many microseconds (one second, the
  library's default) is dropped when it comes due: the scheduler removes it and does not
  call its function.
\<close>

definition misfire_grace_time :: int where
  "misfire_grace_time = 1000000"

section \<open>Reminder helpers\<close>

definition get_user_by_id :: "sys \<Rightarrow> int \<Rightarrow> user option" where
  "get_user_by_id s i = fetchone (filter (\<lambda>u. uid u = i) (users s))"

text \<open>
  \<^verbatim>\<open>save_reminder_db\<close>: the INSERT leaves \<^verbatim>\<open>snooze_until\<close> NULL and sets the status to
  \<^verbatim>\<open>'scheduled'\<close>; \<open>now\<close> is \<^verbatim>\<open>int(time.time())\<close>. A taken primary key raises
  IntegrityError.
\<close>

definition save_reminder_db ::
  "int \<Rightarrow> string \<Rightarrow> int \<Rightarrow> string \<Rightarrow> string option \<Rightarrow> int \<Rightarrow> string option \<Rightarrow> int option
     \<Rightarrow> string option \<Rightarrow> string option \<Rightarrow> sys \<Rightarrow> (error + unit) \<times> sys" where
  "save_reminder_db now rid usr ttl bdy wts rec rep cat tgs s =
     (if \<not> (sqlite_int wts \<and> sqlite_int now \<and> sqlite_int_opt rep)
      then (Inl OverflowError, s)
      else if \<exists>r \<in> set (reminders s). rem_id r = rid then (Inl IntegrityError, s)
      else (Inr (), s\<lparr>reminders := reminders s @
              [\<lparr>rem_id = rid, user_id = usr, title = ttl, body = bdy, when_ts = wts,
                created_at = now, status = ''scheduled'', snooze_until = None,
                recurrence = rec, repeat_interval = rep, category = cat, tags = tgs\<rparr>]\<rparr>))"

definition update_reminder_status :: "string \<Rightarrow> string \<Rightarrow> sys \<Rightarrow> sys" where
  "update_reminder_status rid st s =
     s\<lparr>reminders := update_where (\<lambda>r. rem_id r = rid) (\<lambda>r. r\<lparr>status := st\<rparr>) (reminders s)\<rparr>"

text \<open>
  \<^verbatim>\<open>load_reminder\<close> returns the first row with the id, or None. The source builds a dict
  of nine of the row's columns; the model hands back the row.
\<close>

definition load_reminder :: "sys \<Rightarrow> string \<Rightarrow> reminder option" where
  "load_reminder s rid = fetchone (filter (\<lambda>r. rem_id r = rid) (reminders s))"

section \<open>Notifier and scheduler\<close>

definition send_email :: "env \<Rightarrow> mail \<Rightarrow> sys \<Rightarrow> bool \<times> sys" where
  "send_email e m s =
     (if \<not> truthy_str (SMTP_HOST e) then (False, s)
      else (smtp_session_ok e m, s\<lparr>smtp_log := smtp_log s @ [(m, smtp_session_ok e m)]\<rparr>))"

text \<open>
  Removing the job inside \<^verbatim>\<open>try ... except Exception: pass\<close>: the store is left as it
  is when the removal raises.
\<close>

definition remove_job_quietly :: "string \<Rightarrow> sys \<Rightarrow> sys" where
  "remove_job_quietly jid s =
     (case remove_job jid (jobs s) of Inl _ \<Rightarrow> s | Inr js \<Rightarrow> s\<lparr>jobs := js\<rparr>)"

text \<open>
  \<^verbatim>\<open>schedule_job\<close>: the trigger is built first, the old job is removed, and
  \<^verbatim>\<open>add_job\<close> stands outside any \<^verbatim>\<open>try\<close>: when it raises, the old job is gone and
  no new one is stored.
\<close>

definition schedule_job :: "env \<Rightarrow> string \<Rightarrow> datetime \<Rightarrow> sys \<Rightarrow> (error + unit) \<times> sys" where
  "schedule_job e reminder_id when_dt s =
     (let trigger = DateTrigger e when_dt;
          jid = ''job_'' @ reminder_id;
          s1 = remove_job_quietly jid s
      in case add_job \<lparr>job_id = jid, run_date = trigger, args = [reminder_id]\<rparr> (jobs s1) of
           Inl err \<Rightarrow> (Inl err, s1)
         | Inr js \<Rightarrow> (Inr (), s1\<lparr>jobs := js\<rparr>))"

text \<open>
  The third step of the notifier: look the owner up and, when found, compose the message
  and hand it to \<^verbatim>\<open>send_email\<close>. Formatting the scheduled time raises when it is not a
  representable datetime.
\<close>

definition notify_user :: "env \<Rightarrow> reminder \<Rightarrow> sys \<Rightarrow> (error + unit) \<times> sys" where
  "notify_user e rem s =
     (case get_user_by_id s (user_id rem) of
        None \<Rightarrow> (Inr (), s)
      | Some u \<Rightarrow>
          (case utcfromtimestamp (when_ts rem) of
             Inl err \<Rightarrow> (Inl err, s)
           | Inr dt \<Rightarrow>
               (Inr (), snd (send_email e
                  \<lparr>to_email = email u, subject = ''Reminder: '' @ title rem,
                   mail_body = (body rem, dt)\<rparr> s))))"

text \<open>The fourth step: re-arm a reminder whose repeat interval is truthy.\<close>

definition rearm :: "env \<Rightarrow> reminder \<Rightarrow> sys \<Rightarrow> (error + unit) \<times> sys" where
  "rearm e rem s =
     (case repeat_interval rem of
        None \<Rightarrow> (Inr (), s)
      | Some i \<Rightarrow>
          if i = 0 then (Inr (), s)
          else
            (let next_ts = when_ts rem + i in
             if \<not> sqlite_int next_ts then (Inl OverflowError, s)
             else
               (let s' = s\<lparr>reminders := update_where (\<lambda>r. rem_id r = rem_id rem)
                              (\<lambda>r. r\<lparr>when_ts := next_ts, status := ''scheduled''\<rparr>)
                              (reminders s)\<rparr>
                in case utcfromtimestamp next_ts of
                     Inl err \<Rightarrow> (Inl err, s')
                   | Inr dt \<Rightarrow> schedule_job e (rem_id rem) dt s')))"

definition notifier_notify :: "env \<Rightarrow> string \<Rightarrow> sys \<Rightarrow> (error + unit) \<times> sys" where
  "notifier_notify e reminder_id s =
     (case load_reminder s reminder_id of
        None \<Rightarrow> (Inr (), s)
      | Some rem \<Rightarrow>
          (let s1 = update_reminder_status reminder_id ''fired'' s in
           case notify_user e rem s1 of
             (Inl err, s2) \<Rightarrow> (Inl err, s2)
           | (Inr _, s2) \<Rightarrow> rearm e rem s2))"

section \<open>Endpoints\<close>

text \<open>
  Each endpoint takes the user that \<^verbatim>\<open>get_current_user\<close> has resolved; \<open>now\<close> is
  \<^verbatim>\<open>int(time.time())\<close> and, in \<^verbatim>\<open>create_reminder\<close>, \<open>rid\<close> is the fresh \<^verbatim>\<open>uuid4()\<close>.
\<close>

definition create_reminder ::
  "env \<Rightarrow> int \<Rightarrow> string \<Rightarrow> ReminderCreateIn \<Rightarrow> user \<Rightarrow> sys
     \<Rightarrow> (error + string \<times> datetime) \<times> sys" where
  "create_reminder e now rid payload current_user s =
     (case timestamp e (in_when payload) of
        Inl err \<Rightarrow> (Inl err, s)
      | Inr wts \<Rightarrow>
          (case save_reminder_db now rid (uid current_user) (in_title payload)
                  (in_body payload) wts (in_recurrence payload)
                  (in_repeat_interval_seconds payload) (in_category payload)
                  (in_tags payload) s of
             (Inl err, s1) \<Rightarrow> (Inl err, s1)
           | (Inr _, s1) \<Rightarrow>
               (case schedule_job e rid (in_when payload) s1 of
                  (Inl err, s2) \<Rightarrow> (Inl err, s2)
                | (Inr _, s2) \<Rightarrow> (Inr (rid, in_when payload), s2))))"

definition snooze_reminder ::
  "env \<Rightarrow> int \<Rightarrow> string \<Rightarrow> int \<Rightarrow> user \<Rightarrow> sys
     \<Rightarrow> (error + string \<times> datetime) \<times> sys" where
  "snooze_reminder e now rid minutes current_user s =
     (case load_reminder s rid of
        None \<Rightarrow> (Inl (HTTPException 404 ''Not found''), s)
      | Some rem \<Rightarrow>
          if user_id rem \<noteq> uid current_user then (Inl (HTTPException 404 ''Not found''), s)
          else
            (let new_ts = now + minutes * 60 in
             if \<not> sqlite_int new_ts then (Inl OverflowError, s)
             else
               (let s1 = s\<lparr>reminders := update_where (\<lambda>r. rem_id r = rid)
                              (\<lambda>r. r\<lparr>snooze_until := Some new_ts, when_ts := new_ts,
                                     status := ''scheduled''\<rparr>)
                              (reminders s)\<rparr>
                in case utcfromtimestamp new_ts of
                     Inl err \<Rightarrow> (Inl err, s1)
                   | Inr dt \<Rightarrow>
                       (case schedule_job e rid dt s1 of
                          (Inl err, s2) \<Rightarrow> (Inl err, s2)
                        | (Inr _, s2) \<Rightarrow> (Inr (rid, dt), s2)))))"

definition cancel_reminder :: "string \<Rightarrow> user \<Rightarrow> sys \<Rightarrow> (error + string \<times> string) \<times> sys" where
  "cancel_reminder rid current_user s =
     (case load_reminder s rid of
        None \<Rightarrow> (Inl (HTTPException 404 ''Reminder not found''), s)
      | Some rem \<Rightarrow>
          if user_id rem \<noteq> uid current_user
          then (Inl (HTTPException 404 ''Reminder not found''), s)
          else (Inr (rid, ''cancelled''),
                remove_job_quietly (''job_'' @ rid) (update_reminder_status rid ''cancelled'' s)))"

definition delete_reminder :: "string \<Rightarrow> user \<Rightarrow> sys \<Rightarrow> (error + string \<times> string) \<times> sys" where
  "delete_reminder rid current_user s =
     (case load_reminder s rid of
        None \<Rightarrow> (Inl (HTTPException 404 ''Reminder not found''), s)
      | Some rem \<Rightarrow>
          if user_id rem \<noteq> uid current_user
          then (Inl (HTTPException 404 ''Reminder not found''), s)
          else (Inr (rid, ''deleted''),
                remove_job_quietly (''job_'' @ rid)
                  (s\<lparr>reminders := delete_where (\<lambda>r. rem_id r = rid) (reminders s)\<rparr>)))"

definition get_reminders :: "user \<Rightarrow> sys \<Rightarrow> reminder_out list" where
  "get_reminders current_user s =
     map (\<lambda>r. \<lparr>out_id = rem_id r, out_title = title r, out_body = body r, out_when = when_ts r,
               out_status = status r, out_category = category r, out_tags = tags r\<rparr>)
       (filter (\<lambda>r. user_id r = uid current_user) (reminders s))"

text \<open>
  \<^verbatim>\<open>poll_notifications\<close>: the time filter is applied only when \<^verbatim>\<open>since\<close> is truthy, and
  its value is bound as an SQLite INTEGER.
\<close>

definition poll_notifications :: "int option \<Rightarrow> user \<Rightarrow> sys \<Rightarrow> error + notification list" where
  "poll_notifications since current_user s =
     (let rows =
        (case since of
           None \<Rightarrow>
             Inr (filter (\<lambda>r. status r = ''fired'' \<and> user_id r = uid current_user) (reminders s))
         | Some t \<Rightarrow>
             if t = 0
             then Inr (filter (\<lambda>r. status r = ''fired'' \<and> user_id r = uid current_user)
                         (reminders s))
             else if \<not> sqlite_int t then Inl OverflowError
             else Inr (filter (\<lambda>r. status r = ''fired'' \<and> when_ts r > t
                                    \<and> user_id r = uid current_user) (reminders s)))
      in case rows of
           Inl err \<Rightarrow> Inl err
         | Inr rs \<Rightarrow> Inr (map (\<lambda>r. \<lparr>n_id = rem_id r, n_title = title r, n_body = body r,
                                     n_when = when_ts r\<rparr>) rs))"

section \<open>Runs of the system\<close>

text \<open>
  The requests and timer expiries that change the state. \<open>Fire clock jid\<close> is the
  scheduler looking at the job \<open>jid\<close> when its clock shows \<open>clock\<close> microseconds. A job
  that is not due stays. A due job is taken out of the store (a date trigger has no
  further run); it is dropped when it is overdue by more than the grace time, and
  otherwise the notifier is called with its arguments. The model runs removal and
  notifier one after the other. A request or expiry that raises leaves the state it had
  reached.
\<close>

datatype event =
    Create int string ReminderCreateIn user
  | Snooze int string int user
  | Cancel string user
  | Delete string user
  | Fire int string

definition fire :: "env \<Rightarrow> int \<Rightarrow> string \<Rightarrow> sys \<Rightarrow> sys" where
  "fire e clock jid s =
     (case fetchone (filter (\<lambda>j. job_id j = jid) (jobs s)) of
        None \<Rightarrow> s
      | Some j \<Rightarrow>
          if clock < utc_micros (run_date j) then s
          else
            (let s1 = s\<lparr>jobs := delete_where (\<lambda>k. job_id k = jid) (jobs s)\<rparr>
             in if misfire_grace_time < clock - utc_micros (run_date j) then s1
                else (case args j of
                        [r] \<Rightarrow> snd (notifier_notify e r s1)
                      | _ \<Rightarrow> s1)))"

fun exec :: "env \<Rightarrow> event \<Rightarrow> sys \<Rightarrow> sys" where
  "exec e (Create now rid payload u) s = snd (create_reminder e now rid payload u s)"
| "exec e (Snooze now rid minutes u) s = snd (snooze_reminder e now rid minutes u s)"
| "exec e (Cancel rid u) s = snd (cancel_reminder rid u s)"
| "exec e (Delete rid u) s = snd (delete_reminder rid u s)"
| "exec e (Fire clock jid) s = fire e clock jid s"

fun run :: "env \<Rightarrow> event list \<Rightarrow> sys \<Rightarrow> sys" where
  "run e [] s = s"
| "run e (ev # evs) s = run e evs (exec e ev s)"

text \<open>The state after \<^verbatim>\<open>init_db()\<close> and the registration of the users \<open>us\<close>.\<close>

definition init :: "user list \<Rightarrow> sys" where
  "init us = \<lparr>users = us, reminders = [], jobs = [], smtp_log = []\<rparr>"



section \<open>Invariant of the runs\<close>

text \<open>
  What every run from the initial state maintains: each row carries one of the three status
  literals the code writes; each pending job is the job of one reminder id, named after
  it, and every row with that id is \<^verbatim>\<open>'scheduled'\<close>; job ids are pairwise distinct.
\<close>

definition status_ok :: "sys \<Rightarrow> bool" where
  "status_ok s = (\<forall>r \<in> set (reminders s). status r \<in> {''scheduled'', ''fired'', ''cancelled''})"

definition jobs_armed :: "sys \<Rightarrow> bool" where
  "jobs_armed s =
     (\<forall>j \<in> set (jobs s). \<exists>rid. job_id j = ''job_'' @ rid \<and> args j = [rid] \<and>
        (\<forall>r \<in> set (reminders s). rem_id r = rid \<longrightarrow> status r = ''scheduled''))"

definition consistent :: "sys \<Rightarrow> bool" where
  "consistent s = (status_ok s \<and> jobs_armed s \<and> distinct (map job_id (jobs s)))"

section \<open>Example data\<close>

text \<open>
  Two registered users; a host on UTC and one on UTC+05:30, neither with SMTP configured,
  and a UTC host whose SMTP sessions fail; the daily "Standup" reminder of the
  specification, due 60 seconds after the time 1700000000, as a naive datetime on the UTC
  host and on the host at UTC+05:30.
\<close>

definition alice :: user where
  "alice = \<lparr>uid = 1, email = ''a@x'', password_hash = ''h1'', user_created_at = 1690000000\<rparr>"

definition bob :: user where
  "bob = \<lparr>uid = 2, email = ''b@x'', password_hash = ''h2'', user_created_at = 1690000001\<rparr>"

definition utc_host :: env where
  "utc_host = \<lparr>SMTP_HOST = None, smtp_session_ok = (\<lambda>_. False), local_utcoffset = 0\<rparr>"

definition ist_host :: env where
  "ist_host = \<lparr>SMTP_HOST = None, smtp_session_ok = (\<lambda>_. False), local_utcoffset = 19800\<rparr>"

definition smtp_down :: env where
  "smtp_down = \<lparr>SMTP_HOST = Some ''mx'', smtp_session_ok = (\<lambda>_. False), local_utcoffset = 0\<rparr>"

definition standup :: ReminderCreateIn where
  "standup = \<lparr>in_title = ''Standup'', in_body = Some [], in_when = Naive 1700000060 0,
               in_recurrence = Some ''daily'', in_repeat_interval_seconds = Some 86400,
               in_category = None, in_tags = None\<rparr>"

definition standup_ist :: ReminderCreateIn where
  "standup_ist = standup\<lparr>in_when := Naive 1700019860 0\<rparr>"

text \<open>A one-off reminder at the same time, and one that repeats every 300000000000 seconds.\<close>

definition dentist :: ReminderCreateIn where
  "dentist = \<lparr>in_title = ''Dentist'', in_body = None, in_when = Naive 1700000060 0,
               in_recurrence = None, in_repeat_interval_seconds = None,
               in_category = None, in_tags = None\<rparr>"

definition comet :: ReminderCreateIn where
  "comet = \<lparr>in_title = ''Comet'', in_body = None, in_when = Naive 1700000060 0,
             in_recurrence = None, in_repeat_interval_seconds = Some 300000000000,
             in_category = None, in_tags = None\<rparr>"

text \<open>The store after each of them has been created by Alice at the time 1700000000.\<close>

definition standup_created :: sys where
  "standup_created = run utc_host [Create 1700000000 ''r1'' standup alice] (init [alice, bob])"

definition standup_created_ist :: sys where
  "standup_created_ist =
     run ist_host [Create 1700000000 ''r1'' standup_ist alice] (init [alice, bob])"

definition dentist_created :: sys where
  "dentist_created = run utc_host [Create 1700000000 ''r1'' dentist alice] (init [alice, bob])"

definition comet_created :: sys where
  "comet_created = run utc_host [Create 1700000000 ''r1'' comet alice] (init [alice, bob])"

text \<open>Alice and Bob each create the "Standup" reminder, at the same timestamp.\<close>

definition two_owners :: sys where
  "two_owners = run utc_host [Create 1700000000 ''r1'' standup alice,
                              Create 1700000000 ''r2'' standup bob] (init [alice, bob])"

section \<open>Basic facts about the tables and the job store\<close>

lemma fetchone_filter_map:
  assumes "\<And>r. P (g r) = P r"
  shows "fetchone (filter P (map g rows)) = map_option g (fetchone (filter P rows))"
  using assms by (induction rows) (auto simp: fetchone_def)

lemma fetchone_filter_Some:
  "fetchone (filter P rows) = Some r \<Longrightarrow> P r \<and> r \<in> set rows"
  by (induction rows) (auto simp: fetchone_def split: if_splits)

lemma fetchone_filter_None:
  "fetchone (filter P rows) = None \<longleftrightarrow> (\<forall>r \<in> set rows. \<not> P r)"
  by (induction rows) (auto simp: fetchone_def)

lemma load_reminder_update:
  assumes "reminders s' = update_where (\<lambda>r. rem_id r = k) f (reminders s)"
    and "\<And>r. rem_id (f r) = rem_id r"
  shows "load_reminder s' k'
         = map_option (\<lambda>r. if rem_id r = k then f r else r) (load_reminder s k')"
  unfolding load_reminder_def assms(1) update_where_def
  using assms(2) by (simp add: fetchone_filter_map)

lemma load_reminder_id: "load_reminder s k = Some r \<Longrightarrow> rem_id r = k"
  unfolding load_reminder_def by (drule fetchone_filter_Some) simp

lemma remove_job_quietly_jobs:
  "remove_job_quietly jid s = s\<lparr>jobs := filter (\<lambda>j. job_id j \<noteq> jid) (jobs s)\<rparr>"
proof (cases "\<exists>j \<in> set (jobs s). job_id j = jid")
  case True
  then show ?thesis
    by (simp add: remove_job_quietly_def remove_job_def delete_where_def)
next
  case False
  then have "filter (\<lambda>j. job_id j \<noteq> jid) (jobs s) = jobs s"
    by (simp add: filter_id_conv)
  with False show ?thesis
    by (simp add: remove_job_quietly_def remove_job_def)
qed

lemma utc_seconds_simps [simp]:
  "utc_seconds (Aware w us off) = w - off"
  "utc_seconds (Naive w us) = w"
  by (simp_all add: utc_seconds_def)

lemma utc_micros_simps [simp]:
  "utc_micros (Aware w us off) = (w - off) * 1000000 + int us"
  "utc_micros (Naive w us) = w * 1000000 + int us"
  by (simp_all add: utc_micros_def)

lemma DateTrigger_aware [simp]:
  "DateTrigger e (Aware w us off) = Aware w us off"
  by (simp add: DateTrigger_def)

lemma DateTrigger_naive [simp]:
  "DateTrigger e (Naive w us) = Aware w us (local_utcoffset e)"
  by (simp add: DateTrigger_def)

lemma schedule_job_ok:
  assumes "MINYEAR_ts \<le> utc_seconds (DateTrigger e t)"
    and "utc_seconds (DateTrigger e t) \<le> MAXYEAR_ts"
  shows "schedule_job e rid t s =
     (Inr (), s\<lparr>jobs := filter (\<lambda>j. job_id j \<noteq> ''job_'' @ rid) (jobs s)
                   @ [\<lparr>job_id = ''job_'' @ rid, run_date = DateTrigger e t, args = [rid]\<rparr>]\<rparr>)"
  using assms
  by (simp add: schedule_job_def remove_job_quietly_jobs add_job_def Let_def
        datetime_to_utc_timestamp_def)

lemma schedule_job_overflow:
  assumes "\<not> (MINYEAR_ts \<le> utc_seconds (DateTrigger e t)
              \<and> utc_seconds (DateTrigger e t) \<le> MAXYEAR_ts)"
  shows "schedule_job e rid t s =
     (Inl OverflowError, s\<lparr>jobs := filter (\<lambda>j. job_id j \<noteq> ''job_'' @ rid) (jobs s)\<rparr>)"
  using assms
  by (simp add: schedule_job_def remove_job_quietly_jobs add_job_def Let_def
        datetime_to_utc_timestamp_def)

lemma schedule_job_snd:
  "snd (schedule_job e rid t s) =
     s\<lparr>jobs := filter (\<lambda>j. job_id j \<noteq> ''job_'' @ rid) (jobs s)
            @ (if MINYEAR_ts \<le> utc_seconds (DateTrigger e t)
                  \<and> utc_seconds (DateTrigger e t) \<le> MAXYEAR_ts
               then [\<lparr>job_id = ''job_'' @ rid, run_date = DateTrigger e t, args = [rid]\<rparr>]
               else [])\<rparr>"
proof (cases "MINYEAR_ts \<le> utc_seconds (DateTrigger e t)
              \<and> utc_seconds (DateTrigger e t) \<le> MAXYEAR_ts")
  case True
  then show ?thesis by (simp add: schedule_job_ok)
next
  case False
  then show ?thesis using schedule_job_overflow[OF False, of rid s] by simp
qed

lemma load_reminder_cong: "reminders s = reminders s' \<Longrightarrow> load_reminder s k = load_reminder s' k"
  by (simp add: load_reminder_def)

lemma send_email_frame:
  "reminders (snd (send_email e m s)) = reminders s \<and>
   jobs (snd (send_email e m s)) = jobs s \<and> users (snd (send_email e m s)) = users s"
  by (simp add: send_email_def)

lemma notify_user_frame:
  "reminders (snd (notify_user e rem s)) = reminders s \<and>
   jobs (snd (notify_user e rem s)) = jobs s \<and> users (snd (notify_user e rem s)) = users s"
  by (simp add: notify_user_def send_email_frame split: option.splits sum.splits)

lemma notify_user_fst:
  "fst (notify_user e rem s) =
     (case get_user_by_id s (user_id rem) of None \<Rightarrow> Inr ()
      | Some u \<Rightarrow> (case utcfromtimestamp (when_ts rem) of Inl err \<Rightarrow> Inl err | Inr dt \<Rightarrow> Inr ()))"
  by (simp add: notify_user_def split: option.splits sum.splits)

lemma utcfromtimestamp_ok:
  "MINYEAR_ts \<le> t \<Longrightarrow> t \<le> MAXYEAR_ts \<Longrightarrow> utcfromtimestamp t = Inr (Naive t 0)"
  by (simp add: utcfromtimestamp_def)

lemma datetime_fits_sqlite: "MINYEAR_ts \<le> t \<Longrightarrow> t \<le> MAXYEAR_ts \<Longrightarrow> sqlite_int t"
  by (simp add: sqlite_int_def MINYEAR_ts_def MAXYEAR_ts_def)

lemma notify_user_ok:
  "MINYEAR_ts \<le> when_ts rem \<Longrightarrow> when_ts rem \<le> MAXYEAR_ts \<Longrightarrow> fst (notify_user e rem s) = Inr ()"
  by (simp add: notify_user_fst utcfromtimestamp_ok split: option.splits)

lemma notifier_notify_unfold:
  assumes "load_reminder s rid = Some rem"
  shows "notifier_notify e rid s =
     (case fst (notify_user e rem (update_reminder_status rid ''fired'' s)) of
        Inl err \<Rightarrow> (Inl err, snd (notify_user e rem (update_reminder_status rid ''fired'' s)))
      | Inr _ \<Rightarrow> rearm e rem (snd (notify_user e rem (update_reminder_status rid ''fired'' s))))"
  using assms by (simp add: notifier_notify_def Let_def split: prod.splits sum.splits)

lemma rearm_ok:
  assumes "repeat_interval rem = Some i" and "i \<noteq> 0"
    and "MINYEAR_ts \<le> when_ts rem + i" and "when_ts rem + i \<le> MAXYEAR_ts"
    and "MINYEAR_ts \<le> when_ts rem + i - local_utcoffset e"
    and "when_ts rem + i - local_utcoffset e \<le> MAXYEAR_ts"
  shows "rearm e rem s =
     (Inr (), s\<lparr>reminders := update_where (\<lambda>r. rem_id r = rem_id rem)
                   (\<lambda>r. r\<lparr>when_ts := when_ts rem + i, status := ''scheduled''\<rparr>) (reminders s),
                jobs := filter (\<lambda>j. job_id j \<noteq> ''job_'' @ rem_id rem) (jobs s)
                   @ [\<lparr>job_id = ''job_'' @ rem_id rem,
                       run_date = Aware (when_ts rem + i) 0 (local_utcoffset e),
                       args = [rem_id rem]\<rparr>]\<rparr>)"
  using assms
  by (simp add: rearm_def Let_def utcfromtimestamp_ok datetime_fits_sqlite schedule_job_ok)

lemma notifier_rearms:
  assumes "load_reminder s rid = Some rem" and "repeat_interval rem = Some i" and "i \<noteq> 0"
    and "MINYEAR_ts \<le> when_ts rem" and "when_ts rem \<le> MAXYEAR_ts"
    and "MINYEAR_ts \<le> when_ts rem + i" and "when_ts rem + i \<le> MAXYEAR_ts"
    and "MINYEAR_ts \<le> when_ts rem + i - local_utcoffset e"
    and "when_ts rem + i - local_utcoffset e \<le> MAXYEAR_ts"
  shows "fst (notifier_notify e rid s) = Inr () \<and>
     load_reminder (snd (notifier_notify e rid s)) rid
       = Some (rem\<lparr>when_ts := when_ts rem + i, status := ''scheduled''\<rparr>) \<and>
     filter (\<lambda>j. job_id j = ''job_'' @ rid) (jobs (snd (notifier_notify e rid s)))
       = [\<lparr>job_id = ''job_'' @ rid, run_date = Aware (when_ts rem + i) 0 (local_utcoffset e),
           args = [rid]\<rparr>] \<and>
     filter (\<lambda>j. job_id j \<noteq> ''job_'' @ rid) (jobs (snd (notifier_notify e rid s)))
       = filter (\<lambda>j. job_id j \<noteq> ''job_'' @ rid) (jobs s)"
proof -
  let ?s1 = "update_reminder_status rid ''fired'' s"
  let ?s2 = "snd (notify_user e rem ?s1)"
  have id: "rem_id rem = rid" using assms(1) by (rule load_reminder_id)
  have ok: "fst (notify_user e rem ?s1) = Inr ()"
    using assms(4,5) by (rule notify_user_ok)
  have nn: "notifier_notify e rid s = rearm e rem ?s2"
    using assms(1) ok by (simp add: notifier_notify_unfold)
  have r2: "reminders ?s2 = reminders ?s1" and j2: "jobs ?s2 = jobs s"
    by (simp_all add: notify_user_frame update_reminder_status_def)
  have l1: "load_reminder ?s1 rid = Some (rem\<lparr>status := ''fired''\<rparr>)"
    using assms(1) id
    by (simp add: load_reminder_update[where s = s and f = "\<lambda>r. r\<lparr>status := ''fired''\<rparr>"]
          update_reminder_status_def)
  have l2: "load_reminder ?s2 rid = Some (rem\<lparr>status := ''fired''\<rparr>)"
    using l1 load_reminder_cong[OF r2] by simp
  show ?thesis
    using l2 id j2
    by (simp add: nn rearm_ok[OF assms(2,3,6,7,8,9)]
          load_reminder_update[where s = ?s2
            and f = "\<lambda>r. r\<lparr>when_ts := when_ts rem + i, status := ''scheduled''\<rparr>"])
qed

lemma schedule_job_fst:
  "fst (schedule_job e rid t s) =
     (if MINYEAR_ts \<le> utc_seconds (DateTrigger e t)
         \<and> utc_seconds (DateTrigger e t) \<le> MAXYEAR_ts
      then Inr () else Inl OverflowError)"
  using schedule_job_ok[of e t rid s] schedule_job_overflow[of e t rid s] by auto

lemma rearm_cong:
  assumes "reminders s = reminders s'" and "jobs s = jobs s'" and "users s = users s'"
    and "local_utcoffset e = local_utcoffset e'"
  shows "fst (rearm e rem s) = fst (rearm e' rem s') \<and>
         reminders (snd (rearm e rem s)) = reminders (snd (rearm e' rem s')) \<and>
         jobs (snd (rearm e rem s)) = jobs (snd (rearm e' rem s')) \<and>
         users (snd (rearm e rem s)) = users (snd (rearm e' rem s'))"
  using assms
  by (simp add: rearm_def Let_def schedule_job_snd schedule_job_fst utcfromtimestamp_def
        split: option.splits)

lemma rearm_status:
  assumes "load_reminder s (rem_id rem) = Some r"
  shows "load_reminder (snd (rearm e rem s)) (rem_id rem) = Some r \<or>
         (truthy_int (repeat_interval rem) \<and>
          load_reminder (snd (rearm e rem s)) (rem_id rem)
            = Some (r\<lparr>when_ts := when_ts rem + the (repeat_interval rem), status := ''scheduled''\<rparr>))"
proof (cases "repeat_interval rem")
  case None
  then show ?thesis using assms by (simp add: rearm_def)
next
  case (Some i)
  have id: "rem_id r = rem_id rem" using assms by (rule load_reminder_id)
  let ?s' = "s\<lparr>reminders := update_where (\<lambda>x. rem_id x = rem_id rem)
                 (\<lambda>x. x\<lparr>when_ts := when_ts rem + i, status := ''scheduled''\<rparr>) (reminders s)\<rparr>"
  have l: "load_reminder ?s' (rem_id rem) = Some (r\<lparr>when_ts := when_ts rem + i, status := ''scheduled''\<rparr>)"
    using assms id
    by (simp add: load_reminder_update[where s = s
          and f = "\<lambda>x. x\<lparr>when_ts := when_ts rem + i, status := ''scheduled''\<rparr>"])
  have l': "\<And>js. load_reminder (?s'\<lparr>jobs := js\<rparr>) (rem_id rem) = load_reminder ?s' (rem_id rem)"
    by (rule load_reminder_cong) simp
  show ?thesis
    using Some assms l l'
    by (simp add: rearm_def Let_def schedule_job_snd truthy_int_def split: sum.splits)
qed

lemma remove_job_absent:
  "remove_job jid (filter (\<lambda>j. job_id j \<noteq> jid) js) = Inl JobLookupError"
  by (simp add: remove_job_def)

lemma cancel_reminder_owner:
  assumes "load_reminder s rid = Some rem" and "user_id rem = uid u"
  shows "cancel_reminder rid u s =
     (Inr (rid, ''cancelled''),
      s\<lparr>reminders := update_where (\<lambda>r. rem_id r = rid) (\<lambda>r. r\<lparr>status := ''cancelled''\<rparr>) (reminders s),
        jobs := filter (\<lambda>j. job_id j \<noteq> ''job_'' @ rid) (jobs s)\<rparr>)"
  using assms
  by (simp add: cancel_reminder_def remove_job_quietly_jobs update_reminder_status_def)

section \<open>A chain of firings\<close>




section \<open>The invariant is kept\<close>

lemma consistent_init: "consistent (init us)"
  by (simp add: consistent_def status_ok_def jobs_armed_def init_def)

lemma in_update_where:
  "x \<in> set (update_where P f rows) \<Longrightarrow> \<exists>r \<in> set rows. x = (if P r then f r else r)"
  by (auto simp: update_where_def)

lemma status_ok_update:
  assumes "status_ok s" and "\<And>r. status (f r) \<in> {''scheduled'', ''fired'', ''cancelled''}"
    and "reminders s' = update_where P f (reminders s)"
  shows "status_ok s'"
  unfolding status_ok_def
proof
  fix x assume "x \<in> set (reminders s')"
  then have "x \<in> set (update_where P f (reminders s))" using assms(3) by simp
  from in_update_where[OF this]
  obtain r where r: "r \<in> set (reminders s)" "x = (if P r then f r else r)" by blast
  show "status x \<in> {''scheduled'', ''fired'', ''cancelled''}"
  proof (cases "P r")
    case True
    then show ?thesis using r(2) assms(2) by simp
  next
    case False
    then show ?thesis using r assms(1) unfolding status_ok_def by simp
  qed
qed

lemma status_ok_subset:
  assumes "status_ok s" and "set (reminders s') \<subseteq> set (reminders s)"
  shows "status_ok s'"
  using assms unfolding status_ok_def by blast

lemma jobs_armed_set_scheduled:
  assumes "jobs_armed s" and "\<And>r. status (f r) = ''scheduled''" and "\<And>r. rem_id (f r) = rem_id r"
    and "reminders s' = update_where P f (reminders s)" and "set (jobs s') \<subseteq> set (jobs s)"
  shows "jobs_armed s'"
  unfolding jobs_armed_def
proof
  fix j assume "j \<in> set (jobs s')"
  then have "j \<in> set (jobs s)" using assms(5) by blast
  then obtain rid where rid: "job_id j = ''job_'' @ rid" "args j = [rid]"
      "\<forall>r \<in> set (reminders s). rem_id r = rid \<longrightarrow> status r = ''scheduled''"
    using assms(1) unfolding jobs_armed_def by blast
  have "\<forall>x \<in> set (reminders s'). rem_id x = rid \<longrightarrow> status x = ''scheduled''"
  proof (intro ballI impI)
    fix x assume x: "x \<in> set (reminders s')" "rem_id x = rid"
    then have "x \<in> set (update_where P f (reminders s))" using assms(4) by simp
    from in_update_where[OF this]
    obtain r where r: "r \<in> set (reminders s)" "x = (if P r then f r else r)" by blast
    show "status x = ''scheduled''"
    proof (cases "P r")
      case True
      then show ?thesis using r(2) assms(2) by simp
    next
      case False
      then show ?thesis using r x(2) rid(3) by simp
    qed
  qed
  with rid(1,2) show "\<exists>rid. job_id j = ''job_'' @ rid \<and> args j = [rid] \<and>
        (\<forall>r \<in> set (reminders s'). rem_id r = rid \<longrightarrow> status r = ''scheduled'')"
    by blast
qed

text \<open>Rows of an id without a pending job may take any status.\<close>

lemma jobs_armed_unarmed_update:
  assumes "jobs_armed s" and "\<And>r. rem_id (f r) = rem_id r"
    and "reminders s' = update_where (\<lambda>r. rem_id r = rid) f (reminders s)"
    and "set (jobs s') \<subseteq> set (jobs s)" and "\<forall>j \<in> set (jobs s'). job_id j \<noteq> ''job_'' @ rid"
  shows "jobs_armed s'"
  unfolding jobs_armed_def
proof
  fix j assume j': "j \<in> set (jobs s')"
  then have "j \<in> set (jobs s)" using assms(4) by blast
  then obtain k where k: "job_id j = ''job_'' @ k" "args j = [k]"
      "\<forall>r \<in> set (reminders s). rem_id r = k \<longrightarrow> status r = ''scheduled''"
    using assms(1) unfolding jobs_armed_def by blast
  have "job_id j \<noteq> ''job_'' @ rid" using assms(5) j' by blast
  then have ne: "k \<noteq> rid" unfolding k(1) by blast
  have "\<forall>x \<in> set (reminders s'). rem_id x = k \<longrightarrow> status x = ''scheduled''"
  proof (intro ballI impI)
    fix x assume x: "x \<in> set (reminders s')" "rem_id x = k"
    then have "x \<in> set (update_where (\<lambda>r. rem_id r = rid) f (reminders s))"
      using assms(3) by simp
    from in_update_where[OF this]
    obtain r where r: "r \<in> set (reminders s)" "x = (if rem_id r = rid then f r else r)"
      by blast
    have "rem_id x = rem_id r" unfolding r(2) using assms(2) by (cases "rem_id r = rid") simp_all
    then have "rem_id r = k" using x(2) by simp
    then have "x = r" using r(2) ne by simp
    then show "status x = ''scheduled''" using r(1) x(2) k(3) by simp
  qed
  with k(1,2) show "\<exists>rid. job_id j = ''job_'' @ rid \<and> args j = [rid] \<and>
        (\<forall>r \<in> set (reminders s'). rem_id r = rid \<longrightarrow> status r = ''scheduled'')"
    by blast
qed

lemma jobs_armed_subset:
  assumes "jobs_armed s" and "set (reminders s') \<subseteq> set (reminders s)"
    and "set (jobs s') \<subseteq> set (jobs s)"
  shows "jobs_armed s'"
  unfolding jobs_armed_def
proof
  fix j assume "j \<in> set (jobs s')"
  then have "j \<in> set (jobs s)" using assms(3) by blast
  then obtain k where k: "job_id j = ''job_'' @ k" "args j = [k]"
      "\<forall>r \<in> set (reminders s). rem_id r = k \<longrightarrow> status r = ''scheduled''"
    using assms(1) unfolding jobs_armed_def by blast
  then have "\<forall>r \<in> set (reminders s'). rem_id r = k \<longrightarrow> status r = ''scheduled''"
    using assms(2) by blast
  with k(1,2) show "\<exists>rid. job_id j = ''job_'' @ rid \<and> args j = [rid] \<and>
        (\<forall>r \<in> set (reminders s'). rem_id r = rid \<longrightarrow> status r = ''scheduled'')"
    by blast
qed

lemma in_jobs_schedule:
  "j \<in> set (jobs (snd (schedule_job e rid t s))) \<Longrightarrow>
     j \<in> set (jobs s) \<or> j = \<lparr>job_id = ''job_'' @ rid, run_date = DateTrigger e t, args = [rid]\<rparr>"
  by (auto simp: schedule_job_snd split: if_splits)

lemma jobs_armed_schedule:
  assumes "jobs_armed s" and "\<forall>r \<in> set (reminders s). rem_id r = rid \<longrightarrow> status r = ''scheduled''"
  shows "jobs_armed (snd (schedule_job e rid t s))"
  unfolding jobs_armed_def
proof
  fix j assume "j \<in> set (jobs (snd (schedule_job e rid t s)))"
  then have "j \<in> set (jobs s) \<or> j = \<lparr>job_id = ''job_'' @ rid, run_date = DateTrigger e t, args = [rid]\<rparr>"
    by (rule in_jobs_schedule)
  then show "\<exists>k. job_id j = ''job_'' @ k \<and> args j = [k] \<and>
        (\<forall>r \<in> set (reminders (snd (schedule_job e rid t s))). rem_id r = k \<longrightarrow> status r = ''scheduled'')"
  proof
    assume "j \<in> set (jobs s)"
    then show ?thesis using assms(1) unfolding jobs_armed_def by (simp add: schedule_job_snd)
  next
    assume "j = \<lparr>job_id = ''job_'' @ rid, run_date = DateTrigger e t, args = [rid]\<rparr>"
    then show ?thesis using assms(2) by (auto simp: schedule_job_snd)
  qed
qed

lemma distinct_schedule:
  assumes "distinct (map job_id (jobs s))"
  shows "distinct (map job_id (jobs (snd (schedule_job e rid t s))))"
  using assms by (auto simp: schedule_job_snd distinct_map_filter)

lemma consistent_set_scheduled:
  assumes "consistent s" and "\<And>r. status (f r) = ''scheduled''" and "\<And>r. rem_id (f r) = rem_id r"
  shows "consistent (s\<lparr>reminders := update_where P f (reminders s)\<rparr>)"
proof -
  let ?s' = "s\<lparr>reminders := update_where P f (reminders s)\<rparr>"
  have a: "status_ok ?s'"
    by (rule status_ok_update[where s = s and f = f]) (use assms(1,2) in \<open>simp_all add: consistent_def\<close>)
  have b: "jobs_armed ?s'"
    by (rule jobs_armed_set_scheduled[where s = s and f = f]) (use assms in \<open>simp_all add: consistent_def\<close>)
  show ?thesis using a b assms(1) by (simp add: consistent_def)
qed

lemma consistent_schedule:
  assumes "consistent s" and "\<forall>r \<in> set (reminders s). rem_id r = rid \<longrightarrow> status r = ''scheduled''"
  shows "consistent (snd (schedule_job e rid t s))"
proof -
  have "status_ok (snd (schedule_job e rid t s))"
    using assms(1) by (simp add: consistent_def status_ok_def schedule_job_snd)
  then show ?thesis
    using assms jobs_armed_schedule distinct_schedule by (simp add: consistent_def)
qed

lemma distinct_jobs_filter:
  "distinct (map job_id js) \<Longrightarrow> distinct (map job_id (filter P js))"
  by (rule distinct_map_filter)

lemma consistent_cancel:
  assumes "consistent s"
  shows "consistent (snd (cancel_reminder rid u s))"
proof (cases "\<exists>rem. load_reminder s rid = Some rem \<and> user_id rem = uid u")
  case False
  then have "snd (cancel_reminder rid u s) = s"
    by (auto simp: cancel_reminder_def split: option.splits)
  then show ?thesis using assms by simp
next
  case True
  then obtain rem where rem: "load_reminder s rid = Some rem" "user_id rem = uid u" by blast
  let ?s' = "snd (cancel_reminder rid u s)"
  have r: "reminders ?s' = update_where (\<lambda>r. rem_id r = rid) (\<lambda>r. r\<lparr>status := ''cancelled''\<rparr>) (reminders s)"
    and j: "jobs ?s' = filter (\<lambda>j. job_id j \<noteq> ''job_'' @ rid) (jobs s)"
    by (simp_all add: cancel_reminder_owner[OF rem])
  have a: "status_ok ?s'"
    by (rule status_ok_update[where s = s]) (use assms r in \<open>simp_all add: consistent_def\<close>)
  have b: "jobs_armed ?s'"
    by (rule jobs_armed_unarmed_update[where s = s]) (use assms r j in \<open>auto simp: consistent_def\<close>)
  have c: "distinct (map job_id (jobs ?s'))"
    using assms by (simp add: j consistent_def distinct_jobs_filter)
  show ?thesis using a b c by (simp add: consistent_def)
qed

lemma delete_reminder_owner:
  assumes "load_reminder s rid = Some rem" and "user_id rem = uid u"
  shows "delete_reminder rid u s =
     (Inr (rid, ''deleted''),
      s\<lparr>reminders := filter (\<lambda>r. rem_id r \<noteq> rid) (reminders s),
        jobs := filter (\<lambda>j. job_id j \<noteq> ''job_'' @ rid) (jobs s)\<rparr>)"
  using assms
  by (simp add: delete_reminder_def remove_job_quietly_jobs delete_where_def)

lemma consistent_delete:
  assumes "consistent s"
  shows "consistent (snd (delete_reminder rid u s))"
proof (cases "\<exists>rem. load_reminder s rid = Some rem \<and> user_id rem = uid u")
  case False
  then have "snd (delete_reminder rid u s) = s"
    by (auto simp: delete_reminder_def split: option.splits)
  then show ?thesis using assms by simp
next
  case True
  then obtain rem where rem: "load_reminder s rid = Some rem" "user_id rem = uid u" by blast
  let ?s' = "snd (delete_reminder rid u s)"
  have r: "set (reminders ?s') \<subseteq> set (reminders s)" and j: "set (jobs ?s') \<subseteq> set (jobs s)"
    and j': "jobs ?s' = filter (\<lambda>j. job_id j \<noteq> ''job_'' @ rid) (jobs s)"
    by (simp_all add: delete_reminder_owner[OF rem])
  have "distinct (map job_id (jobs ?s'))"
    using assms by (simp add: j' consistent_def distinct_jobs_filter)
  then show ?thesis
    using assms status_ok_subset[OF _ r] jobs_armed_subset[OF _ r j]
    by (simp add: consistent_def)
qed

lemma rows_scheduled_after_update:
  assumes "reminders s' = update_where (\<lambda>r. rem_id r = rid) f (reminders s)"
    and "\<And>r. status (f r) = ''scheduled''"
  shows "\<forall>r \<in> set (reminders s'). rem_id r = rid \<longrightarrow> status r = ''scheduled''"
proof (intro ballI impI)
  fix x assume x: "x \<in> set (reminders s')" "rem_id x = rid"
  then have "x \<in> set (update_where (\<lambda>r. rem_id r = rid) f (reminders s))"
    using assms(1) by simp
  from in_update_where[OF this]
  obtain r where r: "r \<in> set (reminders s)" "x = (if rem_id r = rid then f r else r)"
    by blast
  show "status x = ''scheduled''"
  proof (cases "rem_id r = rid")
    case True
    then show ?thesis using r(2) assms(2) by simp
  next
    case False
    then show ?thesis using r(2) x(2) by simp
  qed
qed

lemma snooze_reminder_cases:
  "snd (snooze_reminder e now rid minutes u s) = s \<or>
   ((\<exists>r. load_reminder s rid = Some r \<and> user_id r = uid u) \<and>
    (snd (snooze_reminder e now rid minutes u s)
       = s\<lparr>reminders := update_where (\<lambda>r. rem_id r = rid)
            (\<lambda>r. r\<lparr>snooze_until := Some (now + minutes * 60), when_ts := now + minutes * 60,
                   status := ''scheduled''\<rparr>) (reminders s)\<rparr> \<or>
     (\<exists>t. snd (snooze_reminder e now rid minutes u s)
       = snd (schedule_job e rid t (s\<lparr>reminders := update_where (\<lambda>r. rem_id r = rid)
            (\<lambda>r. r\<lparr>snooze_until := Some (now + minutes * 60), when_ts := now + minutes * 60,
                   status := ''scheduled''\<rparr>) (reminders s)\<rparr>)))))"
proof (cases "load_reminder s rid")
  case None
  then show ?thesis by (simp add: snooze_reminder_def)
next
  case (Some rem)
  show ?thesis
  proof (cases "user_id rem \<noteq> uid u \<or> \<not> sqlite_int (now + minutes * 60)")
    case True
    then show ?thesis using Some by (auto simp: snooze_reminder_def Let_def)
  next
    case False
    then have own: "\<exists>r. load_reminder s rid = Some r \<and> user_id r = uid u"
      using Some by simp
    show ?thesis
    proof (cases "utcfromtimestamp (now + minutes * 60)")
      case (Inl err)
      then have "snd (snooze_reminder e now rid minutes u s)
          = s\<lparr>reminders := update_where (\<lambda>r. rem_id r = rid)
            (\<lambda>r. r\<lparr>snooze_until := Some (now + minutes * 60), when_ts := now + minutes * 60,
                   status := ''scheduled''\<rparr>) (reminders s)\<rparr>"
        using Some False by (simp add: snooze_reminder_def Let_def)
      then show ?thesis using own by blast
    next
      case (Inr dt)
      then have "snd (snooze_reminder e now rid minutes u s)
          = snd (schedule_job e rid dt (s\<lparr>reminders := update_where (\<lambda>r. rem_id r = rid)
          (\<lambda>r. r\<lparr>snooze_until := Some (now + minutes * 60), when_ts := now + minutes * 60,
                 status := ''scheduled''\<rparr>) (reminders s)\<rparr>))"
        using Some False by (simp add: snooze_reminder_def Let_def split: prod.splits sum.splits)
      then show ?thesis using own by blast
    qed
  qed
qed

lemma consistent_snooze:
  assumes "consistent s"
  shows "consistent (snd (snooze_reminder e now rid minutes u s))"
proof -
  let ?f = "\<lambda>r. r\<lparr>snooze_until := Some (now + minutes * 60), when_ts := now + minutes * 60,
                     status := ''scheduled''\<rparr>"
  let ?s1 = "s\<lparr>reminders := update_where (\<lambda>r. rem_id r = rid) ?f (reminders s)\<rparr>"
  have c1: "consistent ?s1"
    by (rule consistent_set_scheduled) (use assms in simp_all)
  have sch: "\<forall>r \<in> set (reminders ?s1). rem_id r = rid \<longrightarrow> status r = ''scheduled''"
    by (rule rows_scheduled_after_update[where s = s and f = ?f]) simp_all
  have c2: "\<And>t. consistent (snd (schedule_job e rid t ?s1))"
    using c1 sch by (rule consistent_schedule)
  have "snd (snooze_reminder e now rid minutes u s) = s \<or>
        snd (snooze_reminder e now rid minutes u s) = ?s1 \<or>
        (\<exists>t. snd (snooze_reminder e now rid minutes u s) = snd (schedule_job e rid t ?s1))"
    using snooze_reminder_cases[of e now rid minutes u s] by blast
  then show ?thesis using assms c1 c2 by auto
qed

lemma consistent_cong:
  "reminders s' = reminders s \<Longrightarrow> jobs s' = jobs s \<Longrightarrow> consistent s' = consistent s"
  by (simp add: consistent_def status_ok_def jobs_armed_def)

lemma consistent_append_scheduled:
  assumes "consistent s" and "status r = ''scheduled''"
  shows "consistent (s\<lparr>reminders := reminders s @ [r]\<rparr>)"
proof -
  let ?s' = "s\<lparr>reminders := reminders s @ [r]\<rparr>"
  have a: "status_ok ?s'"
    using assms by (simp add: consistent_def status_ok_def)
  have b: "jobs_armed ?s'"
    unfolding jobs_armed_def
  proof
    fix j assume "j \<in> set (jobs ?s')"
    then have "j \<in> set (jobs s)" by simp
    then obtain k where k: "job_id j = ''job_'' @ k" "args j = [k]"
        "\<forall>x \<in> set (reminders s). rem_id x = k \<longrightarrow> status x = ''scheduled''"
      using assms(1) unfolding consistent_def jobs_armed_def by blast
    have "\<forall>x \<in> set (reminders ?s'). rem_id x = k \<longrightarrow> status x = ''scheduled''"
      using k(3) assms(2) by auto
    with k(1,2) show "\<exists>rid. job_id j = ''job_'' @ rid \<and> args j = [rid] \<and>
        (\<forall>x \<in> set (reminders ?s'). rem_id x = rid \<longrightarrow> status x = ''scheduled'')"
      by blast
  qed
  show ?thesis using a b assms(1) by (simp add: consistent_def)
qed

lemma save_reminder_db_cases:
  "save_reminder_db now rid usr ttl bdy wts rec rep cat tgs s = (res, s') \<Longrightarrow>
     (s' = s \<and> (\<exists>err. res = Inl err)) \<or>
     (res = Inr () \<and> (\<forall>r \<in> set (reminders s). rem_id r \<noteq> rid) \<and>
      s' = s\<lparr>reminders := reminders s @
              [\<lparr>rem_id = rid, user_id = usr, title = ttl, body = bdy, when_ts = wts,
                created_at = now, status = ''scheduled'', snooze_until = None,
                recurrence = rec, repeat_interval = rep, category = cat, tags = tgs\<rparr>]\<rparr>)"
  by (auto simp: save_reminder_db_def split: if_splits)

lemma create_reminder_cases:
  "snd (create_reminder e now rid p u s) = s \<or>
   ((\<forall>r \<in> set (reminders s). rem_id r \<noteq> rid) \<and>
    (\<exists>wts. snd (create_reminder e now rid p u s) =
      snd (schedule_job e rid (in_when p)
        (s\<lparr>reminders := reminders s @
              [\<lparr>rem_id = rid, user_id = uid u, title = in_title p, body = in_body p,
                when_ts = wts, created_at = now, status = ''scheduled'',
                snooze_until = None, recurrence = in_recurrence p,
                repeat_interval = in_repeat_interval_seconds p, category = in_category p,
                tags = in_tags p\<rparr>]\<rparr>))))"
proof (cases "timestamp e (in_when p)")
  case (Inl err)
  then show ?thesis by (simp add: create_reminder_def)
next
  case (Inr wts)
  obtain res s1 where sv: "save_reminder_db now rid (uid u) (in_title p) (in_body p)
      wts (in_recurrence p) (in_repeat_interval_seconds p)
      (in_category p) (in_tags p) s = (res, s1)"
    by (cases "save_reminder_db now rid (uid u) (in_title p) (in_body p)
      wts (in_recurrence p) (in_repeat_interval_seconds p)
      (in_category p) (in_tags p) s") blast
  from save_reminder_db_cases[OF sv] show ?thesis
  proof
    assume "s1 = s \<and> (\<exists>err. res = Inl err)"
    then show ?thesis using sv Inr by (auto simp: create_reminder_def)
  next
    assume a: "res = Inr () \<and> (\<forall>r \<in> set (reminders s). rem_id r \<noteq> rid) \<and>
      s1 = s\<lparr>reminders := reminders s @
              [\<lparr>rem_id = rid, user_id = uid u, title = in_title p, body = in_body p,
                when_ts = wts, created_at = now, status = ''scheduled'',
                snooze_until = None, recurrence = in_recurrence p,
                repeat_interval = in_repeat_interval_seconds p, category = in_category p,
                tags = in_tags p\<rparr>]\<rparr>"
    then have "snd (create_reminder e now rid p u s) = snd (schedule_job e rid (in_when p) s1)"
      using sv Inr by (simp add: create_reminder_def split: prod.splits sum.splits)
    then show ?thesis using a by blast
  qed
qed

lemma consistent_create:
  assumes "consistent s"
  shows "consistent (snd (create_reminder e now rid p u s))"
  using create_reminder_cases[of e now rid p u s]
proof (elim disjE conjE exE)
  assume "snd (create_reminder e now rid p u s) = s"
  then show ?thesis using assms by simp
next
  fix wts
  let ?r = "\<lparr>rem_id = rid, user_id = uid u, title = in_title p, body = in_body p,
                when_ts = wts, created_at = now, status = ''scheduled'',
                snooze_until = None, recurrence = in_recurrence p,
                repeat_interval = in_repeat_interval_seconds p, category = in_category p,
                tags = in_tags p\<rparr>"
  let ?s1 = "s\<lparr>reminders := reminders s @ [?r]\<rparr>"
  assume fresh: "\<forall>r \<in> set (reminders s). rem_id r \<noteq> rid"
    and a: "snd (create_reminder e now rid p u s) = snd (schedule_job e rid (in_when p) ?s1)"
  have c1: "consistent ?s1" by (rule consistent_append_scheduled) (use assms in simp_all)
  have "\<forall>x \<in> set (reminders ?s1). rem_id x = rid \<longrightarrow> status x = ''scheduled''"
    using fresh by auto
  from consistent_schedule[OF c1 this] a show ?thesis by simp
qed

lemma rearm_cases:
  "snd (rearm e rem s) = s \<or>
   (\<exists>i. repeat_interval rem = Some i \<and> i \<noteq> 0 \<and>
     (snd (rearm e rem s) = s\<lparr>reminders := update_where (\<lambda>r. rem_id r = rem_id rem)
         (\<lambda>r. r\<lparr>when_ts := when_ts rem + i, status := ''scheduled''\<rparr>) (reminders s)\<rparr> \<or>
      (\<exists>t. snd (rearm e rem s) = snd (schedule_job e (rem_id rem) t
         (s\<lparr>reminders := update_where (\<lambda>r. rem_id r = rem_id rem)
         (\<lambda>r. r\<lparr>when_ts := when_ts rem + i, status := ''scheduled''\<rparr>) (reminders s)\<rparr>)))))"
proof (cases "repeat_interval rem")
  case None
  then show ?thesis by (simp add: rearm_def)
next
  case (Some i)
  show ?thesis
  proof (cases "i = 0 \<or> \<not> sqlite_int (when_ts rem + i)")
    case True
    then show ?thesis using Some by (auto simp: rearm_def Let_def)
  next
    case False
    show ?thesis
    proof (cases "utcfromtimestamp (when_ts rem + i)")
      case (Inl err)
      then show ?thesis using Some False by (simp add: rearm_def Let_def)
    next
      case (Inr dt)
      then have "snd (rearm e rem s) = snd (schedule_job e (rem_id rem) dt
         (s\<lparr>reminders := update_where (\<lambda>r. rem_id r = rem_id rem)
         (\<lambda>r. r\<lparr>when_ts := when_ts rem + i, status := ''scheduled''\<rparr>) (reminders s)\<rparr>))"
        using Some False by (simp add: rearm_def Let_def)
      then show ?thesis using Some False by blast
    qed
  qed
qed

lemma consistent_rearm:
  assumes "consistent s"
  shows "consistent (snd (rearm e rem s))"
proof -
  have step: "consistent (s\<lparr>reminders := update_where (\<lambda>r. rem_id r = rem_id rem)
         (\<lambda>r. r\<lparr>when_ts := when_ts rem + i, status := ''scheduled''\<rparr>) (reminders s)\<rparr>)"
    (is "consistent ?s1") for i
    by (rule consistent_set_scheduled) (use assms in simp_all)
  have sch: "\<forall>r \<in> set (reminders (s\<lparr>reminders := update_where (\<lambda>r. rem_id r = rem_id rem)
         (\<lambda>r. r\<lparr>when_ts := when_ts rem + i, status := ''scheduled''\<rparr>) (reminders s)\<rparr>)).
        rem_id r = rem_id rem \<longrightarrow> status r = ''scheduled''" for i
    by (rule rows_scheduled_after_update[where s = s
          and f = "\<lambda>r. r\<lparr>when_ts := when_ts rem + i, status := ''scheduled''\<rparr>"]) simp_all
  from rearm_cases[of e rem s] show ?thesis
    using assms step consistent_schedule[OF step sch] by (elim disjE exE conjE) simp_all
qed

lemma consistent_notifier:
  assumes "consistent s" and "\<forall>j \<in> set (jobs s). job_id j \<noteq> ''job_'' @ rid"
  shows "consistent (snd (notifier_notify e rid s))"
proof (cases "load_reminder s rid")
  case None
  then show ?thesis using assms(1) by (simp add: notifier_notify_def)
next
  case (Some rem)
  let ?s1 = "update_reminder_status rid ''fired'' s"
  let ?s2 = "snd (notify_user e rem ?s1)"
  have r1: "reminders ?s1 = update_where (\<lambda>r. rem_id r = rid) (\<lambda>r. r\<lparr>status := ''fired''\<rparr>) (reminders s)"
    and j1: "jobs ?s1 = jobs s"
    by (simp_all add: update_reminder_status_def)
  have a: "status_ok ?s1"
    by (rule status_ok_update[where s = s, OF _ _ r1]) (use assms in \<open>simp_all add: consistent_def\<close>)
  have b: "jobs_armed ?s1"
    by (rule jobs_armed_unarmed_update[where s = s, OF _ _ r1])
       (use assms j1 in \<open>simp_all add: consistent_def\<close>)
  have c1: "consistent ?s1" using a b assms(1) j1 by (simp add: consistent_def)
  have c2: "consistent ?s2"
    using c1 consistent_cong[of ?s2 ?s1] by (simp add: notify_user_frame)
  have "snd (notifier_notify e rid s) = ?s2 \<or> snd (notifier_notify e rid s) = snd (rearm e rem ?s2)"
    by (simp add: notifier_notify_unfold[OF Some] split: sum.splits)
  then show ?thesis using c2 consistent_rearm[OF c2] by auto
qed

lemma fire_cases:
  "fire e clock jid s = s \<or>
   (\<exists>j. fetchone (filter (\<lambda>j. job_id j = jid) (jobs s)) = Some j \<and>
      (fire e clock jid s = s\<lparr>jobs := delete_where (\<lambda>k. job_id k = jid) (jobs s)\<rparr> \<or>
       (\<exists>r. args j = [r] \<and>
          fire e clock jid s
            = snd (notifier_notify e r (s\<lparr>jobs := delete_where (\<lambda>k. job_id k = jid) (jobs s)\<rparr>)))))"
proof (cases "fetchone (filter (\<lambda>j. job_id j = jid) (jobs s))")
  case None
  then show ?thesis by (simp add: fire_def)
next
  case (Some j)
  show ?thesis
  proof (cases "clock < utc_micros (run_date j)")
    case True
    then show ?thesis using Some by (simp add: fire_def)
  next
    case False
    show ?thesis
    proof (cases "misfire_grace_time < clock - utc_micros (run_date j)")
      case True
      then show ?thesis using Some False by (simp add: fire_def Let_def)
    next
      case late: False
      show ?thesis
      proof (cases "\<exists>r. args j = [r]")
        case True
        then obtain r where "args j = [r]" by blast
        then show ?thesis using Some False late by (simp add: fire_def Let_def)
      next
        case False
        then have "(case args j of [r] \<Rightarrow> snd (notifier_notify e r
              (s\<lparr>jobs := delete_where (\<lambda>k. job_id k = jid) (jobs s)\<rparr>))
            | _ \<Rightarrow> s\<lparr>jobs := delete_where (\<lambda>k. job_id k = jid) (jobs s)\<rparr>)
          = s\<lparr>jobs := delete_where (\<lambda>k. job_id k = jid) (jobs s)\<rparr>"
          by (cases "args j") (auto split: list.splits)
        then show ?thesis
          using Some \<open>\<not> clock < utc_micros (run_date j)\<close> late
          by (simp add: fire_def Let_def)
      qed
    qed
  qed
qed

lemma consistent_fire:
  assumes "consistent s"
  shows "consistent (fire e clock jid s)"
  using fire_cases[of e clock jid s]
proof (elim disjE exE conjE)
  assume "fire e clock jid s = s"
  then show ?thesis using assms by simp
next
  fix j
  let ?s1 = "s\<lparr>jobs := delete_where (\<lambda>k. job_id k = jid) (jobs s)\<rparr>"
  have c1: "consistent ?s1"
  proof -
    have "status_ok ?s1" using assms by (simp add: consistent_def status_ok_def)
    moreover have "jobs_armed ?s1"
      by (rule jobs_armed_subset[where s = s]) (use assms in \<open>auto simp: consistent_def delete_where_def\<close>)
    moreover have "distinct (map job_id (jobs ?s1))"
      using assms by (simp add: consistent_def delete_where_def distinct_jobs_filter)
    ultimately show ?thesis by (simp add: consistent_def)
  qed
  {
    assume "fire e clock jid s = ?s1"
    then show ?thesis using c1 by simp
  next
    fix r
    assume Some: "fetchone (filter (\<lambda>j. job_id j = jid) (jobs s)) = Some j"
      and r: "args j = [r]" and f: "fire e clock jid s = snd (notifier_notify e r ?s1)"
    have j: "job_id j = jid" "j \<in> set (jobs s)"
      using fetchone_filter_Some[OF Some] by simp_all
    then obtain rid where rid: "job_id j = ''job_'' @ rid" "args j = [rid]"
      using assms unfolding consistent_def jobs_armed_def by blast
    have no: "\<forall>k \<in> set (jobs ?s1). job_id k \<noteq> ''job_'' @ r"
      using j(1) rid r by (auto simp: delete_where_def)
    show ?thesis using consistent_notifier[OF c1 no] f by simp
  }
qed

lemma consistent_exec: "consistent s \<Longrightarrow> consistent (exec e ev s)"
  by (cases ev) (simp_all add: consistent_create consistent_snooze consistent_cancel
        consistent_delete consistent_fire)

lemma consistent_run: "consistent s \<Longrightarrow> consistent (run e evs s)"
  by (induction evs arbitrary: s) (simp_all add: consistent_exec)

section \<open>The row found under an id, before and after\<close>

lemma load_reminder_other:
  assumes "reminders s' = update_where (\<lambda>r. rem_id r = k) f (reminders s)"
    and "\<And>r. rem_id (f r) = rem_id r" and "k \<noteq> rid"
  shows "load_reminder s' rid = load_reminder s rid"
proof (cases "load_reminder s rid")
  case None
  then show ?thesis using load_reminder_update[OF assms(1,2), of rid] by simp
next
  case (Some r)
  then have "rem_id r = rid" by (rule load_reminder_id)
  then show ?thesis using Some assms(3) load_reminder_update[OF assms(1,2), of rid] by simp
qed

lemma load_reminder_append:
  "reminders s' = reminders s @ [x] \<Longrightarrow>
   load_reminder s' rid =
     (case load_reminder s rid of Some r \<Rightarrow> Some r
      | None \<Rightarrow> if rem_id x = rid then Some x else None)"
  by (cases "filter (\<lambda>r. rem_id r = rid) (reminders s)")
     (simp_all add: load_reminder_def fetchone_def)

lemma load_reminder_filter_other:
  "reminders s' = filter (\<lambda>r. rem_id r \<noteq> k) (reminders s) \<Longrightarrow> k \<noteq> rid \<Longrightarrow>
   load_reminder s' rid = load_reminder s rid"
proof -
  assume a: "reminders s' = filter (\<lambda>r. rem_id r \<noteq> k) (reminders s)" and ne: "k \<noteq> rid"
  have "filter (\<lambda>r. rem_id r = rid) (filter (\<lambda>r. rem_id r \<noteq> k) (reminders s))
      = filter (\<lambda>r. rem_id r = rid) (reminders s)"
    using ne by (simp) (intro filter_cong, auto)
  then show ?thesis by (simp add: load_reminder_def a)
qed

lemma load_reminder_schedule [simp]:
  "load_reminder (snd (schedule_job e k t s)) rid = load_reminder s rid"
  by (rule load_reminder_cong) (simp add: schedule_job_snd)

text \<open>What each request and the notifier do to the row found under an id.\<close>

lemma create_lookup:
  "load_reminder (snd (create_reminder e now k p u s)) rid = load_reminder s rid \<or>
   (k = rid \<and> load_reminder s rid = None \<and>
    (\<exists>r'. load_reminder (snd (create_reminder e now k p u s)) rid = Some r' \<and>
       status r' = ''scheduled''))"
  using create_reminder_cases[of e now k p u s]
proof (elim disjE conjE exE)
  assume "snd (create_reminder e now k p u s) = s"
  then show ?thesis by simp
next
  fix wts
  let ?x = "\<lparr>rem_id = k, user_id = uid u, title = in_title p, body = in_body p,
                when_ts = wts, created_at = now, status = ''scheduled'',
                snooze_until = None, recurrence = in_recurrence p,
                repeat_interval = in_repeat_interval_seconds p, category = in_category p,
                tags = in_tags p\<rparr>"
  assume a: "snd (create_reminder e now k p u s) =
      snd (schedule_job e k (in_when p) (s\<lparr>reminders := reminders s @ [?x]\<rparr>))"
  have l: "load_reminder (snd (create_reminder e now k p u s)) rid =
     (case load_reminder s rid of Some r \<Rightarrow> Some r
      | None \<Rightarrow> if rem_id ?x = rid then Some ?x else None)"
    using a load_reminder_append[of "s\<lparr>reminders := reminders s @ [?x]\<rparr>" s ?x rid] by simp
  show ?thesis
  proof (cases "load_reminder s rid")
    case None
    then show ?thesis using l by (cases "k = rid") simp_all
  next
    case (Some r)
    then show ?thesis using l by simp
  qed
qed

lemma snooze_lookup:
  "load_reminder (snd (snooze_reminder e now k m u s)) rid = load_reminder s rid \<or>
   (k = rid \<and> (\<exists>r. load_reminder s rid = Some r \<and> user_id r = uid u \<and>
      load_reminder (snd (snooze_reminder e now k m u s)) rid
        = Some (r\<lparr>snooze_until := Some (now + m * 60), when_ts := now + m * 60,
                  status := ''scheduled''\<rparr>)))"
proof -
  let ?f = "\<lambda>r. r\<lparr>snooze_until := Some (now + m * 60), when_ts := now + m * 60,
                     status := ''scheduled''\<rparr>"
  let ?s1 = "s\<lparr>reminders := update_where (\<lambda>r. rem_id r = k) ?f (reminders s)\<rparr>"
  have l1: "load_reminder ?s1 rid = map_option (\<lambda>r. if rem_id r = k then ?f r else r) (load_reminder s rid)"
    by (rule load_reminder_update) simp_all
  from snooze_reminder_cases[of e now k m u s] show ?thesis
  proof
    assume "snd (snooze_reminder e now k m u s) = s"
    then show ?thesis by simp
  next
    assume a: "(\<exists>r. load_reminder s k = Some r \<and> user_id r = uid u) \<and>
       (snd (snooze_reminder e now k m u s) = ?s1 \<or>
        (\<exists>t. snd (snooze_reminder e now k m u s) = snd (schedule_job e k t ?s1)))"
    then have l: "load_reminder (snd (snooze_reminder e now k m u s)) rid = load_reminder ?s1 rid"
      by auto
    from a obtain r where r: "load_reminder s k = Some r" "user_id r = uid u" by blast
    show ?thesis
    proof (cases "k = rid")
      case True
      then show ?thesis using r l l1 load_reminder_id[OF r(1)] by simp
    next
      case False
      have "load_reminder ?s1 rid = load_reminder s rid"
        by (rule load_reminder_other[where f = ?f and k = k]) (use False in simp_all)
      then show ?thesis using l by simp
    qed
  qed
qed

lemma cancel_lookup:
  "load_reminder (snd (cancel_reminder k u s)) rid = load_reminder s rid \<or>
   (k = rid \<and> (\<exists>r. load_reminder s rid = Some r \<and> user_id r = uid u \<and>
      load_reminder (snd (cancel_reminder k u s)) rid = Some (r\<lparr>status := ''cancelled''\<rparr>)))"
proof (cases "\<exists>rem. load_reminder s k = Some rem \<and> user_id rem = uid u")
  case False
  then have "snd (cancel_reminder k u s) = s"
    by (auto simp: cancel_reminder_def split: option.splits)
  then show ?thesis by simp
next
  case True
  then obtain rem where rem: "load_reminder s k = Some rem" "user_id rem = uid u" by blast
  let ?f = "\<lambda>r. r\<lparr>status := ''cancelled''\<rparr>"
  have r: "reminders (snd (cancel_reminder k u s)) = update_where (\<lambda>r. rem_id r = k) ?f (reminders s)"
    by (simp add: cancel_reminder_owner[OF rem])
  show ?thesis
  proof (cases "k = rid")
    case True
    then show ?thesis
      using rem load_reminder_id[OF rem(1)] load_reminder_update[OF r, of rid] by simp
  next
    case False
    have "load_reminder (snd (cancel_reminder k u s)) rid = load_reminder s rid"
      by (rule load_reminder_other[OF r]) (use False in simp_all)
    then show ?thesis by simp
  qed
qed

lemma delete_lookup:
  "load_reminder (snd (delete_reminder k u s)) rid = load_reminder s rid \<or>
   (k = rid \<and> load_reminder (snd (delete_reminder k u s)) rid = None)"
proof (cases "\<exists>rem. load_reminder s k = Some rem \<and> user_id rem = uid u")
  case False
  then have "snd (delete_reminder k u s) = s"
    by (auto simp: delete_reminder_def split: option.splits)
  then show ?thesis by simp
next
  case True
  then obtain rem where rem: "load_reminder s k = Some rem" "user_id rem = uid u" by blast
  have r: "reminders (snd (delete_reminder k u s)) = filter (\<lambda>r. rem_id r \<noteq> k) (reminders s)"
    by (simp add: delete_reminder_owner[OF rem])
  show ?thesis
  proof (cases "k = rid")
    case True
    have "load_reminder (snd (delete_reminder k u s)) k = None"
      unfolding load_reminder_def r by (simp add: fetchone_def)
    then show ?thesis using True by simp
  next
    case False
    then show ?thesis using load_reminder_filter_other[OF r] by simp
  qed
qed

lemma notifier_lookup:
  "load_reminder (snd (notifier_notify e k s)) rid = load_reminder s rid \<or>
   (k = rid \<and> (\<exists>r. load_reminder s rid = Some r \<and>
      (load_reminder (snd (notifier_notify e k s)) rid = Some (r\<lparr>status := ''fired''\<rparr>) \<or>
       (truthy_int (repeat_interval r) \<and>
        load_reminder (snd (notifier_notify e k s)) rid
          = Some (r\<lparr>when_ts := when_ts r + the (repeat_interval r), status := ''scheduled''\<rparr>)))))"
proof (cases "load_reminder s k")
  case None
  then show ?thesis by (simp add: notifier_notify_def)
next
  case (Some rem)
  let ?s1 = "update_reminder_status k ''fired'' s"
  let ?s2 = "snd (notify_user e rem ?s1)"
  have id: "rem_id rem = k" using Some by (rule load_reminder_id)
  have r1: "reminders ?s2 = update_where (\<lambda>r. rem_id r = k) (\<lambda>r. r\<lparr>status := ''fired''\<rparr>) (reminders s)"
    by (simp add: notify_user_frame update_reminder_status_def)
  have res: "snd (notifier_notify e k s) = ?s2 \<or> snd (notifier_notify e k s) = snd (rearm e rem ?s2)"
    by (simp add: notifier_notify_unfold[OF Some] split: sum.splits)
  show ?thesis
  proof (cases "k = rid")
    case False
    have o2: "load_reminder ?s2 rid = load_reminder s rid"
      by (rule load_reminder_other[OF r1]) (use False in simp_all)
    have "load_reminder (snd (rearm e rem ?s2)) rid = load_reminder ?s2 rid"
      using rearm_cases[of e rem ?s2]
    proof (elim disjE exE conjE)
      fix i
      assume "snd (rearm e rem ?s2) = ?s2\<lparr>reminders := update_where (\<lambda>r. rem_id r = rem_id rem)
         (\<lambda>r. r\<lparr>when_ts := when_ts rem + i, status := ''scheduled''\<rparr>) (reminders ?s2)\<rparr>"
      then show ?thesis
        using load_reminder_other[where s' = "snd (rearm e rem ?s2)" and s = ?s2 and k = k and rid = rid
            and f = "\<lambda>r. r\<lparr>when_ts := when_ts rem + i, status := ''scheduled''\<rparr>"] id False
        by simp
    next
      fix i t
      assume "snd (rearm e rem ?s2) = snd (schedule_job e (rem_id rem) t
         (?s2\<lparr>reminders := update_where (\<lambda>r. rem_id r = rem_id rem)
         (\<lambda>r. r\<lparr>when_ts := when_ts rem + i, status := ''scheduled''\<rparr>) (reminders ?s2)\<rparr>))"
      then show ?thesis
        using load_reminder_other[where s' = "?s2\<lparr>reminders := update_where (\<lambda>r. rem_id r = rem_id rem)
              (\<lambda>r. r\<lparr>when_ts := when_ts rem + i, status := ''scheduled''\<rparr>) (reminders ?s2)\<rparr>"
            and s = ?s2 and k = k and rid = rid
            and f = "\<lambda>r. r\<lparr>when_ts := when_ts rem + i, status := ''scheduled''\<rparr>"] id False
        by simp
    qed simp
    then show ?thesis using res o2 by auto
  next
    case True
    have l2: "load_reminder ?s2 (rem_id rem) = Some (rem\<lparr>status := ''fired''\<rparr>)"
      using Some id load_reminder_update[OF r1, of k] by simp
    from rearm_status[OF l2, of e] res l2 show ?thesis
      using True Some id by auto
  qed
qed

lemma fire_lookup:
  assumes "consistent s"
  shows "load_reminder (fire e clock jid s) rid = load_reminder s rid \<or>
   (\<exists>r. load_reminder s rid = Some r \<and> status r = ''scheduled'' \<and>
      (load_reminder (fire e clock jid s) rid = Some (r\<lparr>status := ''fired''\<rparr>) \<or>
       (truthy_int (repeat_interval r) \<and>
        load_reminder (fire e clock jid s) rid
          = Some (r\<lparr>when_ts := when_ts r + the (repeat_interval r), status := ''scheduled''\<rparr>))))"
  using fire_cases[of e clock jid s]
proof (elim disjE exE conjE)
  assume "fire e clock jid s = s"
  then show ?thesis by simp
next
  fix j
  assume "fire e clock jid s = s\<lparr>jobs := delete_where (\<lambda>k. job_id k = jid) (jobs s)\<rparr>"
  then have "load_reminder (fire e clock jid s) rid = load_reminder s rid"
    by (intro load_reminder_cong) simp
  then show ?thesis by simp
next
  fix j k
  let ?s1 = "s\<lparr>jobs := delete_where (\<lambda>k. job_id k = jid) (jobs s)\<rparr>"
  assume Some: "fetchone (filter (\<lambda>j. job_id j = jid) (jobs s)) = Some j"
    and k1: "args j = [k]" and f: "fire e clock jid s = snd (notifier_notify e k ?s1)"
  have j: "j \<in> set (jobs s)" using fetchone_filter_Some[OF Some] by simp
  then obtain k' where "args j = [k']"
      "\<forall>r \<in> set (reminders s). rem_id r = k' \<longrightarrow> status r = ''scheduled''"
    using assms unfolding consistent_def jobs_armed_def by blast
  then have k: "\<forall>r \<in> set (reminders s). rem_id r = k \<longrightarrow> status r = ''scheduled''"
    using k1 by simp
  have l1: "load_reminder ?s1 rid = load_reminder s rid"
    by (rule load_reminder_cong) simp
  from notifier_lookup[of e k ?s1 rid] show ?thesis
  proof
    assume "load_reminder (snd (notifier_notify e k ?s1)) rid = load_reminder ?s1 rid"
    then show ?thesis using f l1 by simp
  next
    assume a: "k = rid \<and> (\<exists>r. load_reminder ?s1 rid = Some r \<and>
      (load_reminder (snd (notifier_notify e k ?s1)) rid = Some (r\<lparr>status := ''fired''\<rparr>) \<or>
       (truthy_int (repeat_interval r) \<and>
        load_reminder (snd (notifier_notify e k ?s1)) rid
          = Some (r\<lparr>when_ts := when_ts r + the (repeat_interval r), status := ''scheduled''\<rparr>))))"
    then obtain r where r: "load_reminder s rid = Some r"
      "load_reminder (fire e clock jid s) rid = Some (r\<lparr>status := ''fired''\<rparr>) \<or>
       (truthy_int (repeat_interval r) \<and>
        load_reminder (fire e clock jid s) rid
          = Some (r\<lparr>when_ts := when_ts r + the (repeat_interval r), status := ''scheduled''\<rparr>))"
      using f l1 by auto
    have "r \<in> set (reminders s) \<and> rem_id r = rid"
      using r(1) fetchone_filter_Some[of "\<lambda>r. rem_id r = rid" "reminders s" r]
      by (simp add: load_reminder_def)
    then have "status r = ''scheduled''" using k a by blast
    then show ?thesis using r by blast
  qed
qed

section \<open>Evaluating the example data\<close>

lemmas demo_defs = standup_created_def standup_created_ist_def dentist_created_def
  comet_created_def two_owners_def init_def alice_def bob_def utc_host_def ist_host_def
  smtp_down_def standup_def standup_ist_def dentist_def comet_def

lemmas eval_defs = create_reminder_def save_reminder_db_def timestamp_def int_seconds_def
  sqlite_int_def sqlite_int_opt_def schedule_job_def remove_job_quietly_def remove_job_def
  add_job_def datetime_to_utc_timestamp_def DateTrigger_def MINYEAR_ts_def MAXYEAR_ts_def
  delete_where_def update_where_def fetchone_def load_reminder_def

lemmas notifier_defs = notifier_notify_def notify_user_def rearm_def get_user_by_id_def
  utcfromtimestamp_def update_reminder_status_def send_email_def truthy_str_def
  truthy_int_def fire_def misfire_grace_time_def Let_def

lemma standup_created_eq:
  "standup_created = \<lparr>users = [alice, bob],
     reminders = [\<lparr>rem_id = ''r1'', user_id = 1, title = ''Standup'', body = Some [],
        when_ts = 1700000060, created_at = 1700000000, status = ''scheduled'',
        snooze_until = None, recurrence = Some ''daily'', repeat_interval = Some 86400,
        category = None, tags = None\<rparr>],
     jobs = [\<lparr>job_id = ''job_r1'', run_date = Aware 1700000060 0 0, args = [''r1'']\<rparr>],
     smtp_log = []\<rparr>"
  by (simp add: demo_defs eval_defs)



lemma dentist_created_eq:
  "dentist_created = \<lparr>users = [alice, bob],
     reminders = [\<lparr>rem_id = ''r1'', user_id = 1, title = ''Dentist'', body = None,
        when_ts = 1700000060, created_at = 1700000000, status = ''scheduled'',
        snooze_until = None, recurrence = None, repeat_interval = None,
        category = None, tags = None\<rparr>],
     jobs = [\<lparr>job_id = ''job_r1'', run_date = Aware 1700000060 0 0, args = [''r1'']\<rparr>],
     smtp_log = []\<rparr>"
  by (simp add: demo_defs eval_defs)

lemma two_owners_eq:
  "two_owners = \<lparr>users = [alice, bob],
     reminders = [\<lparr>rem_id = ''r1'', user_id = 1, title = ''Standup'', body = Some [],
        when_ts = 1700000060, created_at = 1700000000, status = ''scheduled'',
        snooze_until = None, recurrence = Some ''daily'', repeat_interval = Some 86400,
        category = None, tags = None\<rparr>,
       \<lparr>rem_id = ''r2'', user_id = 2, title = ''Standup'', body = Some [],
        when_ts = 1700000060, created_at = 1700000000, status = ''scheduled'',
        snooze_until = None, recurrence = Some ''daily'', repeat_interval = Some 86400,
        category = None, tags = None\<rparr>],
     jobs = [\<lparr>job_id = ''job_r1'', run_date = Aware 1700000060 0 0, args = [''r1'']\<rparr>,
             \<lparr>job_id = ''job_r2'', run_date = Aware 1700000060 0 0, args = [''r2'']\<rparr>],
     smtp_log = []\<rparr>"
  by (simp add: demo_defs eval_defs)

lemma dentist_fired_eq:
  "fire utc_host 1700000060000000 ''job_r1'' dentist_created = \<lparr>users = [alice, bob],
     reminders = [\<lparr>rem_id = ''r1'', user_id = 1, title = ''Dentist'', body = None,
        when_ts = 1700000060, created_at = 1700000000, status = ''fired'',
        snooze_until = None, recurrence = None, repeat_interval = None,
        category = None, tags = None\<rparr>],
     jobs = [], smtp_log = []\<rparr>"
  by (simp add: dentist_created_eq notifier_defs eval_defs alice_def bob_def utc_host_def)

section \<open>The claims\<close>




text \<open>
  C2, as amended. In every state reached from the initial one, each reminder's status is
  \<^verbatim>\<open>'scheduled'\<close>, \<^verbatim>\<open>'fired'\<close> or \<^verbatim>\<open>'cancelled'\<close>. One further request or timer expiry
  treats the row found under an id as follows. A row that appears was created and is
  \<^verbatim>\<open>'scheduled'\<close>. A status that changes was changed by a timer expiry, from
  \<^verbatim>\<open>'scheduled'\<close> to \<^verbatim>\<open>'fired'\<close>; or by the owner's cancel, to \<^verbatim>\<open>'cancelled'\<close> from any
  status; or by the owner's snooze, to \<^verbatim>\<open>'scheduled'\<close> from any status. A timer expiry
  that changes a row finds it \<^verbatim>\<open>'scheduled'\<close> and leaves it \<^verbatim>\<open>'fired'\<close>, or, only when its
  repeat interval is truthy, \<^verbatim>\<open>'scheduled'\<close> again at the next target time.
\<close>

theorem status_transitions:
  assumes "s = run e evs (init us)"
  shows "(\<forall>x \<in> set (reminders s). status x \<in> {''scheduled'', ''fired'', ''cancelled''}) \<and>
    (\<forall>rid r'. load_reminder s rid = None \<and> load_reminder (exec e ev s) rid = Some r'
        \<longrightarrow> (\<exists>now p u. ev = Create now rid p u) \<and> status r' = ''scheduled'') \<and>
    (\<forall>rid r r'. load_reminder s rid = Some r \<and> load_reminder (exec e ev s) rid = Some r'
          \<and> status r' \<noteq> status r
        \<longrightarrow> (\<exists>clock jid. ev = Fire clock jid \<and> status r = ''scheduled''
               \<and> status r' = ''fired'') \<or>
            (\<exists>u. ev = Cancel rid u \<and> user_id r = uid u \<and> status r' = ''cancelled'') \<or>
            (\<exists>now m u. ev = Snooze now rid m u \<and> user_id r = uid u
               \<and> status r' = ''scheduled'')) \<and>
    (\<forall>clock jid rid r r'. ev = Fire clock jid \<and> load_reminder s rid = Some r
          \<and> load_reminder (exec e ev s) rid = Some r' \<and> r' \<noteq> r
        \<longrightarrow> status r = ''scheduled'' \<and>
            (r' = r\<lparr>status := ''fired''\<rparr> \<or>
             (truthy_int (repeat_interval r) \<and>
              r' = r\<lparr>when_ts := when_ts r + the (repeat_interval r), status := ''scheduled''\<rparr>)))"
proof -
  have c: "consistent s"
    unfolding assms by (rule consistent_run[OF consistent_init])
  have inv: "\<forall>x \<in> set (reminders s). status x \<in> {''scheduled'', ''fired'', ''cancelled''}"
    using c unfolding consistent_def status_ok_def by blast
  have new: "(\<exists>now p u. ev = Create now rid p u) \<and> status r' = ''scheduled''"
    if h: "load_reminder s rid = None" "load_reminder (exec e ev s) rid = Some r'" for rid r'
  proof (cases ev)
    case (Create now k p u)
    then show ?thesis using h create_lookup[of e now k p u s rid] by auto
  next
    case (Snooze now k m u)
    then show ?thesis using h snooze_lookup[of e now k m u s rid] by auto
  next
    case (Cancel k u)
    then show ?thesis using h cancel_lookup[of k u s rid] by auto
  next
    case (Delete k u)
    then show ?thesis using h delete_lookup[of k u s rid] by auto
  next
    case (Fire clock jid)
    then show ?thesis using h fire_lookup[OF c, of e clock jid rid] by auto
  qed
  have chg: "(\<exists>clock jid. ev = Fire clock jid \<and> status r = ''scheduled''
               \<and> status r' = ''fired'') \<or>
            (\<exists>u. ev = Cancel rid u \<and> user_id r = uid u \<and> status r' = ''cancelled'') \<or>
            (\<exists>now m u. ev = Snooze now rid m u \<and> user_id r = uid u \<and> status r' = ''scheduled'')"
    if h: "load_reminder s rid = Some r" "load_reminder (exec e ev s) rid = Some r'"
      "status r' \<noteq> status r" for rid r r'
  proof (cases ev)
    case (Create now k p u)
    then show ?thesis using h create_lookup[of e now k p u s rid] by auto
  next
    case (Snooze now k m u)
    then show ?thesis using h snooze_lookup[of e now k m u s rid] by auto
  next
    case (Cancel k u)
    then show ?thesis using h cancel_lookup[of k u s rid] by auto
  next
    case (Delete k u)
    then show ?thesis using h delete_lookup[of k u s rid] by auto
  next
    case (Fire clock jid)
    then show ?thesis using h fire_lookup[OF c, of e clock jid rid] by auto
  qed
  have fired: "status r = ''scheduled'' \<and>
            (r' = r\<lparr>status := ''fired''\<rparr> \<or>
             (truthy_int (repeat_interval r) \<and>
              r' = r\<lparr>when_ts := when_ts r + the (repeat_interval r), status := ''scheduled''\<rparr>))"
    if h: "ev = Fire clock jid" "load_reminder s rid = Some r"
      "load_reminder (exec e ev s) rid = Some r'" "r' \<noteq> r" for clock jid rid r r'
    using h fire_lookup[OF c, of e clock jid rid] by auto
  show ?thesis
    using inv new chg fired by blast
qed

theorem status_transitions_witness:
  "dentist_created = run utc_host [Create 1700000000 ''r1'' dentist alice] (init [alice, bob]) \<and>
   map_option status (load_reminder dentist_created ''r1'') = Some ''scheduled'' \<and>
   map_option status
     (load_reminder (exec utc_host (Fire 1700000060000000 ''job_r1'') dentist_created) ''r1'')
     = Some ''fired'' \<and>
   set (map status (reminders dentist_created)) \<subseteq> {''scheduled'', ''fired'', ''cancelled''}"
proof -
  let ?r = "\<lparr>rem_id = ''r1'', user_id = 1, title = ''Dentist'', body = None,
        when_ts = 1700000060, created_at = 1700000000, status = ''scheduled'',
        snooze_until = None, recurrence = None, repeat_interval = None,
        category = None, tags = None\<rparr>"
  have s: "dentist_created = run utc_host [Create 1700000000 ''r1'' dentist alice] (init [alice, bob])"
    by (simp add: dentist_created_def)
  have l: "load_reminder dentist_created ''r1'' = Some ?r"
    by (simp add: dentist_created_eq load_reminder_def fetchone_def)
  have l': "load_reminder (exec utc_host (Fire 1700000060000000 ''job_r1'') dentist_created) ''r1''
      = Some (?r\<lparr>status := ''fired''\<rparr>)"
    by (simp add: dentist_created_eq notifier_defs eval_defs alice_def bob_def utc_host_def)
  have ne: "status (?r\<lparr>status := ''fired''\<rparr>) \<noteq> status ?r" by simp
  note t = status_transitions [OF s, of "Fire 1700000060000000 ''job_r1''"]
  have inv: "\<forall>x \<in> set (reminders dentist_created).
      status x \<in> {''scheduled'', ''fired'', ''cancelled''}"
    by (rule t[THEN conjunct1])
  have "status ?r = ''scheduled'' \<and>
      (?r\<lparr>status := ''fired''\<rparr> = ?r\<lparr>status := ''fired''\<rparr> \<or>
       (truthy_int (repeat_interval ?r) \<and>
        ?r\<lparr>status := ''fired''\<rparr>
          = ?r\<lparr>when_ts := when_ts ?r + the (repeat_interval ?r), status := ''scheduled''\<rparr>))"
    by (rule t[THEN conjunct2, THEN conjunct2, THEN conjunct2, rule_format,
          of 1700000060000000 "''job_r1''" "''r1''" ?r "?r\<lparr>status := ''fired''\<rparr>"])
       (use l l' in simp_all)
  then have a: "map_option status (load_reminder dentist_created ''r1'') = Some ''scheduled''"
    using l by simp
  have b: "map_option status (load_reminder (exec utc_host (Fire 1700000060000000 ''job_r1'') dentist_created) ''r1'')
     = Some ''fired''"
    using l' by simp
  have c: "set (map status (reminders dentist_created)) \<subseteq> {''scheduled'', ''fired'', ''cancelled''}"
    using inv by auto
  show ?thesis using s a b c by (intro conjI)
qed

text \<open>
  C2 as stated fails: the requests carry no guard on the current status. A one-off
  reminder (no repeat interval) that has fired is taken from \<^verbatim>\<open>'fired'\<close> to
  \<^verbatim>\<open>'cancelled'\<close> by cancel, from \<^verbatim>\<open>'cancelled'\<close> to \<^verbatim>\<open>'scheduled'\<close> by snooze, and from
  \<^verbatim>\<open>'fired'\<close> to \<^verbatim>\<open>'scheduled'\<close> by snooze.
\<close>

theorem status_transition_counterexample:
  "map repeat_interval (reminders dentist_created) = [None] \<and>
   map status (reminders (run utc_host [Fire 1700000060000000 ''job_r1''] dentist_created)) = [''fired''] \<and>
   map status (reminders (run utc_host [Fire 1700000060000000 ''job_r1'', Cancel ''r1'' alice] dentist_created))
     = [''cancelled''] \<and>
   map status (reminders (run utc_host [Fire 1700000060000000 ''job_r1'', Cancel ''r1'' alice,
       Snooze 1700000100 ''r1'' 5 alice] dentist_created)) = [''scheduled''] \<and>
   map status (reminders (run utc_host [Fire 1700000060000000 ''job_r1'', Snooze 1700000100 ''r1'' 5 alice]
       dentist_created)) = [''scheduled'']"
  by (simp add: dentist_created_eq notifier_defs eval_defs alice_def bob_def utc_host_def
        cancel_reminder_def snooze_reminder_def)

text \<open>
  C3. The code at the scenario of the specification. The "Standup" reminder is created at
  1700000000 for 1700000060, repeating every 86400 seconds, and its timer expires on time.
  The notifier writes \<^verbatim>\<open>'fired'\<close> and, in the same call, \<^verbatim>\<open>'scheduled'\<close> and the next
  target time 1700086460 over it. The poll selects rows with status \<^verbatim>\<open>'fired'\<close>: with
  \<^verbatim>\<open>since = 1700000000\<close>, and also without \<^verbatim>\<open>since\<close>, it returns nothing, where the
  claim expects the reminder once with the time 1700000060. A one-off reminder fired at
  the same time is returned, with that time.
\<close>

theorem poll_after_rearm:
  "map status (reminders (fire utc_host 1700000060000000 ''job_r1'' standup_created))
     = [''scheduled''] \<and>
   map when_ts (reminders (fire utc_host 1700000060000000 ''job_r1'' standup_created))
     = [1700086460] \<and>
   poll_notifications (Some 1700000000) alice
       (fire utc_host 1700000060000000 ''job_r1'' standup_created) = Inr [] \<and>
   poll_notifications None alice
       (fire utc_host 1700000060000000 ''job_r1'' standup_created) = Inr [] \<and>
   poll_notifications (Some 1700000000) alice
       (fire utc_host 1700000060000000 ''job_r1'' dentist_created)
     = Inr [\<lparr>n_id = ''r1'', n_title = ''Dentist'', n_body = None, n_when = 1700000060\<rparr>]"
  by (simp add: standup_created_eq dentist_created_eq notifier_defs eval_defs alice_def bob_def
        utc_host_def poll_notifications_def)

text \<open>
  C4. When no row carries the id at fire time, the notifier returns normally (no
  exception) and hands back the state it was given: no status write, no SMTP session, no
  job added or removed.
\<close>

theorem notifier_absent:
  "load_reminder s rid = None \<Longrightarrow> notifier_notify e rid s = (Inr (), s)"
  by (simp add: notifier_notify_def)

theorem notifier_absent_witness:
  "load_reminder standup_created ''gone'' = None \<and>
   notifier_notify utc_host ''gone'' standup_created = (Inr (), standup_created)"
proof -
  have h: "load_reminder standup_created ''gone'' = None"
    by (simp add: standup_created_eq load_reminder_def fetchone_def)
  show ?thesis using h notifier_absent [OF h] by simp
qed

text \<open>
  C5. For a reminder present at fire time the notifier's first write marks the row
  \<^verbatim>\<open>'fired'\<close>. \<^verbatim>\<open>send_email\<close> yields a truth value in every case (channel not configured,
  session failed, session succeeded) and touches neither users, reminders nor jobs. The
  outcome of the notifier does not depend on the mail channel: with any two environments
  of the same time zone it returns or raises the same, and leaves the same users,
  reminders and jobs. Afterwards the row is \<^verbatim>\<open>'fired'\<close>, or it has been re-armed by its
  repeat interval. Whatever the mail channel does, when the times involved are
  representable datetimes the notifier returns normally: a reminder without repeat
  interval is left \<^verbatim>\<open>'fired'\<close>, and a recurring one is re-armed, \<^verbatim>\<open>'scheduled'\<close> at the next
  target time with exactly one job, made from the datetime of that time.
\<close>

theorem delivery_failure_harmless:
  assumes "load_reminder s rid = Some rem"
  shows "load_reminder (update_reminder_status rid ''fired'' s) rid
       = Some (rem\<lparr>status := ''fired''\<rparr>) \<and>
     users (snd (send_email e m s')) = users s' \<and>
     reminders (snd (send_email e m s')) = reminders s' \<and>
     jobs (snd (send_email e m s')) = jobs s' \<and>
     (local_utcoffset e = local_utcoffset e' \<longrightarrow>
        fst (notifier_notify e rid s) = fst (notifier_notify e' rid s) \<and>
        users (snd (notifier_notify e rid s)) = users (snd (notifier_notify e' rid s)) \<and>
        reminders (snd (notifier_notify e rid s)) = reminders (snd (notifier_notify e' rid s)) \<and>
        jobs (snd (notifier_notify e rid s)) = jobs (snd (notifier_notify e' rid s))) \<and>
     (load_reminder (snd (notifier_notify e rid s)) rid = Some (rem\<lparr>status := ''fired''\<rparr>) \<or>
      (truthy_int (repeat_interval rem) \<and>
       load_reminder (snd (notifier_notify e rid s)) rid
         = Some (rem\<lparr>when_ts := when_ts rem + the (repeat_interval rem),
                     status := ''scheduled''\<rparr>))) \<and>
     (MINYEAR_ts \<le> when_ts rem \<and> when_ts rem \<le> MAXYEAR_ts
        \<and> \<not> truthy_int (repeat_interval rem) \<longrightarrow>
        fst (notifier_notify e rid s) = Inr () \<and>
        load_reminder (snd (notifier_notify e rid s)) rid = Some (rem\<lparr>status := ''fired''\<rparr>) \<and>
        jobs (snd (notifier_notify e rid s)) = jobs s) \<and>
     (\<forall>i. repeat_interval rem = Some i \<and> i \<noteq> 0 \<and>
          MINYEAR_ts \<le> when_ts rem \<and> when_ts rem \<le> MAXYEAR_ts \<and>
          MINYEAR_ts \<le> when_ts rem + i \<and> when_ts rem + i \<le> MAXYEAR_ts \<and>
          MINYEAR_ts \<le> when_ts rem + i - local_utcoffset e \<and>
          when_ts rem + i - local_utcoffset e \<le> MAXYEAR_ts \<longrightarrow>
        fst (notifier_notify e rid s) = Inr () \<and>
        load_reminder (snd (notifier_notify e rid s)) rid
          = Some (rem\<lparr>when_ts := when_ts rem + i, status := ''scheduled''\<rparr>) \<and>
        filter (\<lambda>j. job_id j = ''job_'' @ rid) (jobs (snd (notifier_notify e rid s)))
          = [\<lparr>job_id = ''job_'' @ rid,
              run_date = DateTrigger e (Naive (when_ts rem + i) 0), args = [rid]\<rparr>])"
proof -
  let ?s1 = "update_reminder_status rid ''fired'' s"
  let ?s2 = "snd (notify_user e rem ?s1)"
  let ?s2' = "snd (notify_user e' rem ?s1)"
  have id: "rem_id rem = rid" using assms by (rule load_reminder_id)
  have f: "fst (notify_user e rem ?s1) = fst (notify_user e' rem ?s1)"
    by (simp add: notify_user_fst)
  have fr: "reminders ?s2 = reminders ?s2'" "jobs ?s2 = jobs ?s2'" "users ?s2 = users ?s2'"
    by (simp_all add: notify_user_frame)
  have l1: "load_reminder ?s1 rid = Some (rem\<lparr>status := ''fired''\<rparr>)"
    using assms id
    by (simp add: load_reminder_update[where s = s and f = "\<lambda>r. r\<lparr>status := ''fired''\<rparr>"]
          update_reminder_status_def)
  have l2: "load_reminder ?s2 (rem_id rem) = Some (rem\<lparr>status := ''fired''\<rparr>)"
    using l1 id load_reminder_cong[of ?s2 ?s1] by (simp add: notify_user_frame)
  have j2: "jobs ?s2 = jobs s"
    by (simp add: notify_user_frame update_reminder_status_def)
  have indep: "fst (notifier_notify e rid s) = fst (notifier_notify e' rid s) \<and>
        users (snd (notifier_notify e rid s)) = users (snd (notifier_notify e' rid s)) \<and>
        reminders (snd (notifier_notify e rid s)) = reminders (snd (notifier_notify e' rid s)) \<and>
        jobs (snd (notifier_notify e rid s)) = jobs (snd (notifier_notify e' rid s))"
    if z: "local_utcoffset e = local_utcoffset e'"
  proof (cases "fst (notify_user e rem ?s1)")
    case (Inl err)
    then show ?thesis
      using f fr by (simp add: notifier_notify_unfold[OF assms])
  next
    case (Inr u)
    then have n: "notifier_notify e rid s = rearm e rem ?s2"
        "notifier_notify e' rid s = rearm e' rem ?s2'"
      using f by (simp_all add: notifier_notify_unfold[OF assms])
    show ?thesis
      using rearm_cong[OF fr z, of rem] by (simp add: n)
  qed
  have stat: "load_reminder (snd (notifier_notify e rid s)) rid = Some (rem\<lparr>status := ''fired''\<rparr>) \<or>
      (truthy_int (repeat_interval rem) \<and>
       load_reminder (snd (notifier_notify e rid s)) rid
         = Some (rem\<lparr>when_ts := when_ts rem + the (repeat_interval rem),
                     status := ''scheduled''\<rparr>))"
  proof (cases "fst (notify_user e rem ?s1)")
    case (Inl err)
    then show ?thesis
      using l2 id by (simp add: notifier_notify_unfold[OF assms])
  next
    case (Inr u)
    then have n: "notifier_notify e rid s = rearm e rem ?s2"
      by (simp add: notifier_notify_unfold[OF assms])
    show ?thesis
      using rearm_status[OF l2, of e] id by (simp add: n)
  qed
  have oneoff: "fst (notifier_notify e rid s) = Inr () \<and>
        load_reminder (snd (notifier_notify e rid s)) rid = Some (rem\<lparr>status := ''fired''\<rparr>) \<and>
        jobs (snd (notifier_notify e rid s)) = jobs s"
    if h: "MINYEAR_ts \<le> when_ts rem \<and> when_ts rem \<le> MAXYEAR_ts
        \<and> \<not> truthy_int (repeat_interval rem)"
  proof -
    have ok: "fst (notify_user e rem ?s1) = Inr ()"
      using h by (simp add: notify_user_ok)
    have n: "notifier_notify e rid s = rearm e rem ?s2"
      using ok by (simp add: notifier_notify_unfold[OF assms])
    have "rearm e rem ?s2 = (Inr (), ?s2)"
      using h by (simp add: rearm_def truthy_int_def split: option.splits)
    then show ?thesis using l2 id j2 by (simp add: n)
  qed
  have recur: "fst (notifier_notify e rid s) = Inr () \<and>
        load_reminder (snd (notifier_notify e rid s)) rid
          = Some (rem\<lparr>when_ts := when_ts rem + i, status := ''scheduled''\<rparr>) \<and>
        filter (\<lambda>j. job_id j = ''job_'' @ rid) (jobs (snd (notifier_notify e rid s)))
          = [\<lparr>job_id = ''job_'' @ rid,
              run_date = DateTrigger e (Naive (when_ts rem + i) 0), args = [rid]\<rparr>]"
    if h: "repeat_interval rem = Some i \<and> i \<noteq> 0 \<and>
          MINYEAR_ts \<le> when_ts rem \<and> when_ts rem \<le> MAXYEAR_ts \<and>
          MINYEAR_ts \<le> when_ts rem + i \<and> when_ts rem + i \<le> MAXYEAR_ts \<and>
          MINYEAR_ts \<le> when_ts rem + i - local_utcoffset e \<and>
          when_ts rem + i - local_utcoffset e \<le> MAXYEAR_ts" for i
    using notifier_rearms[OF assms, of i e] h by simp
  have se: "users (snd (send_email e m s')) = users s'"
      "reminders (snd (send_email e m s')) = reminders s'"
      "jobs (snd (send_email e m s')) = jobs s'"
    by (simp_all add: send_email_frame)
  have indep': "local_utcoffset e = local_utcoffset e' \<longrightarrow>
        fst (notifier_notify e rid s) = fst (notifier_notify e' rid s) \<and>
        users (snd (notifier_notify e rid s)) = users (snd (notifier_notify e' rid s)) \<and>
        reminders (snd (notifier_notify e rid s)) = reminders (snd (notifier_notify e' rid s)) \<and>
        jobs (snd (notifier_notify e rid s)) = jobs (snd (notifier_notify e' rid s))"
    using indep by (rule impI)
  have oneoff': "MINYEAR_ts \<le> when_ts rem \<and> when_ts rem \<le> MAXYEAR_ts
        \<and> \<not> truthy_int (repeat_interval rem) \<longrightarrow>
        fst (notifier_notify e rid s) = Inr () \<and>
        load_reminder (snd (notifier_notify e rid s)) rid = Some (rem\<lparr>status := ''fired''\<rparr>) \<and>
        jobs (snd (notifier_notify e rid s)) = jobs s"
    using oneoff by (rule impI)
  have recur': "\<forall>i. repeat_interval rem = Some i \<and> i \<noteq> 0 \<and>
          MINYEAR_ts \<le> when_ts rem \<and> when_ts rem \<le> MAXYEAR_ts \<and>
          MINYEAR_ts \<le> when_ts rem + i \<and> when_ts rem + i \<le> MAXYEAR_ts \<and>
          MINYEAR_ts \<le> when_ts rem + i - local_utcoffset e \<and>
          when_ts rem + i - local_utcoffset e \<le> MAXYEAR_ts \<longrightarrow>
        fst (notifier_notify e rid s) = Inr () \<and>
        load_reminder (snd (notifier_notify e rid s)) rid
          = Some (rem\<lparr>when_ts := when_ts rem + i, status := ''scheduled''\<rparr>) \<and>
        filter (\<lambda>j. job_id j = ''job_'' @ rid) (jobs (snd (notifier_notify e rid s)))
          = [\<lparr>job_id = ''job_'' @ rid,
              run_date = DateTrigger e (Naive (when_ts rem + i) 0), args = [rid]\<rparr>]"
    using recur by (intro allI impI)
  show ?thesis
    using l1 se indep' stat oneoff' recur' by (intro conjI)
qed

theorem delivery_failure_harmless_witness:
  "load_reminder standup_created ''r1'' =
     Some \<lparr>rem_id = ''r1'', user_id = 1, title = ''Standup'', body = Some [],
        when_ts = 1700000060, created_at = 1700000000, status = ''scheduled'',
        snooze_until = None, recurrence = Some ''daily'', repeat_interval = Some 86400,
        category = None, tags = None\<rparr> \<and>
   fst (notifier_notify smtp_down ''r1'' standup_created) = Inr () \<and>
   map snd (smtp_log (snd (notifier_notify smtp_down ''r1'' standup_created))) = [False] \<and>
   map status (reminders (snd (notifier_notify smtp_down ''r1'' standup_created)))
     = [''scheduled''] \<and>
   map when_ts (reminders (snd (notifier_notify smtp_down ''r1'' standup_created)))
     = [1700086460] \<and>
   jobs (snd (notifier_notify smtp_down ''r1'' standup_created))
     = [\<lparr>job_id = ''job_r1'', run_date = Aware 1700086460 0 0, args = [''r1'']\<rparr>] \<and>
   fst (notifier_notify smtp_down ''r1'' dentist_created) = Inr () \<and>
   map status (reminders (snd (notifier_notify smtp_down ''r1'' dentist_created))) = [''fired'']"
proof -
  let ?rem = "\<lparr>rem_id = ''r1'', user_id = 1, title = ''Standup'', body = Some [],
        when_ts = 1700000060, created_at = 1700000000, status = ''scheduled'',
        snooze_until = None, recurrence = Some ''daily'', repeat_interval = Some 86400,
        category = None, tags = None\<rparr>"
  have l: "load_reminder standup_created ''r1'' = Some ?rem"
    by (simp add: standup_created_eq load_reminder_def fetchone_def)
  have h: "repeat_interval ?rem = Some 86400 \<and> (86400 :: int) \<noteq> 0 \<and>
          MINYEAR_ts \<le> when_ts ?rem \<and> when_ts ?rem \<le> MAXYEAR_ts \<and>
          MINYEAR_ts \<le> when_ts ?rem + 86400 \<and> when_ts ?rem + 86400 \<le> MAXYEAR_ts \<and>
          MINYEAR_ts \<le> when_ts ?rem + 86400 - local_utcoffset smtp_down \<and>
          when_ts ?rem + 86400 - local_utcoffset smtp_down \<le> MAXYEAR_ts"
    by (simp add: MINYEAR_ts_def MAXYEAR_ts_def smtp_down_def)
  note t = delivery_failure_harmless [OF l, where e = smtp_down]
  note rearmed = t[THEN conjunct2, THEN conjunct2, THEN conjunct2, THEN conjunct2,
      THEN conjunct2, THEN conjunct2, THEN conjunct2, rule_format, OF h]
  have a: "fst (notifier_notify smtp_down ''r1'' standup_created) = Inr ()"
    using rearmed by simp
  have b: "filter (\<lambda>j. job_id j = ''job_r1'') (jobs (snd (notifier_notify smtp_down ''r1'' standup_created)))
      = [\<lparr>job_id = ''job_r1'', run_date = Aware 1700086460 0 0, args = [''r1'']\<rparr>]"
    using rearmed by (simp add: smtp_down_def)
  have c: "map snd (smtp_log (snd (notifier_notify smtp_down ''r1'' standup_created))) = [False]"
      "map status (reminders (snd (notifier_notify smtp_down ''r1'' standup_created)))
         = [''scheduled'']"
      "map when_ts (reminders (snd (notifier_notify smtp_down ''r1'' standup_created)))
         = [1700086460]"
      "jobs (snd (notifier_notify smtp_down ''r1'' standup_created))
         = [\<lparr>job_id = ''job_r1'', run_date = Aware 1700086460 0 0, args = [''r1'']\<rparr>]"
    by (simp_all add: standup_created_eq notifier_defs eval_defs alice_def bob_def smtp_down_def)
  have d: "fst (notifier_notify smtp_down ''r1'' dentist_created) = Inr ()"
      "map status (reminders (snd (notifier_notify smtp_down ''r1'' dentist_created))) = [''fired'']"
    by (simp_all add: dentist_created_eq notifier_defs eval_defs alice_def bob_def smtp_down_def)
  show ?thesis using l a b c d by (intro conjI)
qed

text \<open>
  C6, as amended. Let the run date, as the trigger reads it, lie in the years 1 to 9999
  on the UTC time line. Then \<^verbatim>\<open>schedule_job\<close> returns normally and the job store holds
  exactly one job for the reminder id, with that run date; a second call with such a time
  leaves again exactly one job, with the second run date. For every time, the jobs of
  other ids, the users and the reminders are as before, and the number of jobs of the
  reminder id afterwards is one or none. In every state reached from the initial one, job
  ids are pairwise distinct: no two jobs of one reminder are pending together.
\<close>

theorem schedule_job_replaces:
  "(MINYEAR_ts \<le> utc_seconds (DateTrigger e t) \<and> utc_seconds (DateTrigger e t) \<le> MAXYEAR_ts
      \<longrightarrow>
      fst (schedule_job e rid t s) = Inr () \<and>
      filter (\<lambda>j. job_id j = ''job_'' @ rid) (jobs (snd (schedule_job e rid t s)))
        = [\<lparr>job_id = ''job_'' @ rid, run_date = DateTrigger e t, args = [rid]\<rparr>]) \<and>
   (MINYEAR_ts \<le> utc_seconds (DateTrigger e t') \<and> utc_seconds (DateTrigger e t') \<le> MAXYEAR_ts
      \<longrightarrow>
      fst (schedule_job e rid t' (snd (schedule_job e rid t s))) = Inr () \<and>
      filter (\<lambda>j. job_id j = ''job_'' @ rid)
          (jobs (snd (schedule_job e rid t' (snd (schedule_job e rid t s)))))
        = [\<lparr>job_id = ''job_'' @ rid, run_date = DateTrigger e t', args = [rid]\<rparr>]) \<and>
   filter (\<lambda>j. job_id j \<noteq> ''job_'' @ rid) (jobs (snd (schedule_job e rid t s)))
     = filter (\<lambda>j. job_id j \<noteq> ''job_'' @ rid) (jobs s) \<and>
   users (snd (schedule_job e rid t s)) = users s \<and>
   reminders (snd (schedule_job e rid t s)) = reminders s \<and>
   length (filter (\<lambda>j. job_id j = k) (jobs (snd (schedule_job e rid t s))))
     = (if k = ''job_'' @ rid
        then (if MINYEAR_ts \<le> utc_seconds (DateTrigger e t)
                 \<and> utc_seconds (DateTrigger e t) \<le> MAXYEAR_ts then 1 else 0)
        else length (filter (\<lambda>j. job_id j = k) (jobs s))) \<and>
   distinct (map job_id (jobs (run e evs (init us))))"
proof -
  have a: "filter (\<lambda>j. job_id j \<noteq> ''job_'' @ rid \<and> job_id j = k) js
       = (if k = ''job_'' @ rid then [] else filter (\<lambda>j. job_id j = k) js)" for js :: "job list"
  proof (cases "k = ''job_'' @ rid")
    case True
    then show ?thesis by (simp add: filter_empty_conv)
  next
    case False
    then have "filter (\<lambda>j. job_id j \<noteq> ''job_'' @ rid \<and> job_id j = k) js
        = filter (\<lambda>j. job_id j = k) js"
      by (intro filter_cong) auto
    with False show ?thesis by simp
  qed
  have d: "distinct (map job_id (jobs (run e evs (init us))))"
    using consistent_run[OF consistent_init, of e evs us] by (simp add: consistent_def)
  have one: "fst (schedule_job e rid t s) = Inr () \<and>
      filter (\<lambda>j. job_id j = ''job_'' @ rid) (jobs (snd (schedule_job e rid t s)))
        = [\<lparr>job_id = ''job_'' @ rid, run_date = DateTrigger e t, args = [rid]\<rparr>]"
    if "MINYEAR_ts \<le> utc_seconds (DateTrigger e t) \<and> utc_seconds (DateTrigger e t) \<le> MAXYEAR_ts"
    for t s
    using that by (simp add: schedule_job_ok)
  have c1: "MINYEAR_ts \<le> utc_seconds (DateTrigger e t) \<and> utc_seconds (DateTrigger e t) \<le> MAXYEAR_ts
      \<longrightarrow>
      fst (schedule_job e rid t s) = Inr () \<and>
      filter (\<lambda>j. job_id j = ''job_'' @ rid) (jobs (snd (schedule_job e rid t s)))
        = [\<lparr>job_id = ''job_'' @ rid, run_date = DateTrigger e t, args = [rid]\<rparr>]"
    using one[of t s] by (rule impI)
  have c2: "MINYEAR_ts \<le> utc_seconds (DateTrigger e t') \<and> utc_seconds (DateTrigger e t') \<le> MAXYEAR_ts
      \<longrightarrow>
      fst (schedule_job e rid t' (snd (schedule_job e rid t s))) = Inr () \<and>
      filter (\<lambda>j. job_id j = ''job_'' @ rid)
          (jobs (snd (schedule_job e rid t' (snd (schedule_job e rid t s)))))
        = [\<lparr>job_id = ''job_'' @ rid, run_date = DateTrigger e t', args = [rid]\<rparr>]"
    using one[of t' "snd (schedule_job e rid t s)"] by (rule impI)
  have c3: "filter (\<lambda>j. job_id j \<noteq> ''job_'' @ rid) (jobs (snd (schedule_job e rid t s)))
     = filter (\<lambda>j. job_id j \<noteq> ''job_'' @ rid) (jobs s)"
    by (simp add: schedule_job_snd)
  have c4: "users (snd (schedule_job e rid t s)) = users s"
    and c5: "reminders (snd (schedule_job e rid t s)) = reminders s"
    by (simp_all add: schedule_job_snd)
  have c6: "length (filter (\<lambda>j. job_id j = k) (jobs (snd (schedule_job e rid t s))))
     = (if k = ''job_'' @ rid
        then (if MINYEAR_ts \<le> utc_seconds (DateTrigger e t)
                 \<and> utc_seconds (DateTrigger e t) \<le> MAXYEAR_ts then 1 else 0)
        else length (filter (\<lambda>j. job_id j = k) (jobs s)))"
    using a[of "jobs s"] by (simp add: schedule_job_snd)
  show ?thesis using c1 c2 c3 c4 c5 c6 d by (intro conjI)
qed

theorem schedule_job_replaces_witness:
  "MINYEAR_ts \<le> utc_seconds (DateTrigger utc_host (Naive 1700000400 0)) \<and>
   utc_seconds (DateTrigger utc_host (Naive 1700000400 0)) \<le> MAXYEAR_ts \<and>
   MINYEAR_ts \<le> utc_seconds (DateTrigger utc_host (Naive 1700000500 0)) \<and>
   utc_seconds (DateTrigger utc_host (Naive 1700000500 0)) \<le> MAXYEAR_ts \<and>
   fst (schedule_job utc_host ''r1'' (Naive 1700000500 0)
      (snd (schedule_job utc_host ''r1'' (Naive 1700000400 0) two_owners))) = Inr () \<and>
   filter (\<lambda>j. job_id j = ''job_r1'')
      (jobs (snd (schedule_job utc_host ''r1'' (Naive 1700000500 0)
         (snd (schedule_job utc_host ''r1'' (Naive 1700000400 0) two_owners)))))
     = [\<lparr>job_id = ''job_r1'', run_date = Aware 1700000500 0 0, args = [''r1'']\<rparr>] \<and>
   map job_id (jobs (snd (schedule_job utc_host ''r1'' (Naive 1700000500 0)
      (snd (schedule_job utc_host ''r1'' (Naive 1700000400 0) two_owners)))))
     = [''job_r2'', ''job_r1'']"
proof -
  have h: "MINYEAR_ts \<le> utc_seconds (DateTrigger utc_host (Naive 1700000400 0)) \<and>
      utc_seconds (DateTrigger utc_host (Naive 1700000400 0)) \<le> MAXYEAR_ts"
    and h': "MINYEAR_ts \<le> utc_seconds (DateTrigger utc_host (Naive 1700000500 0)) \<and>
      utc_seconds (DateTrigger utc_host (Naive 1700000500 0)) \<le> MAXYEAR_ts"
    by (simp_all add: MINYEAR_ts_def MAXYEAR_ts_def utc_host_def)
  note t = schedule_job_replaces [where e = utc_host and rid = "''r1''"
      and t = "Naive 1700000400 0" and t' = "Naive 1700000500 0" and s = two_owners]
  from t[THEN conjunct2, THEN conjunct1, rule_format, OF h']
  have a: "fst (schedule_job utc_host ''r1'' (Naive 1700000500 0)
      (snd (schedule_job utc_host ''r1'' (Naive 1700000400 0) two_owners))) = Inr ()"
    and b: "filter (\<lambda>j. job_id j = ''job_r1'')
      (jobs (snd (schedule_job utc_host ''r1'' (Naive 1700000500 0)
         (snd (schedule_job utc_host ''r1'' (Naive 1700000400 0) two_owners)))))
     = [\<lparr>job_id = ''job_r1'', run_date = Aware 1700000500 0 0, args = [''r1'']\<rparr>]"
    by (simp_all add: utc_host_def)
  have c: "map job_id (jobs (snd (schedule_job utc_host ''r1'' (Naive 1700000500 0)
      (snd (schedule_job utc_host ''r1'' (Naive 1700000400 0) two_owners)))))
     = [''job_r2'', ''job_r1'']"
    by (simp add: schedule_job_snd two_owners_eq MINYEAR_ts_def MAXYEAR_ts_def utc_host_def)
  show ?thesis using h h' a b c by (intro conjI) simp_all
qed

text \<open>
  C6 as stated fails where the run date leaves the years 1 to 9999 in UTC. The aware
  datetime 0001-01-01T00:00:00+01:00 lies in year 0 on the UTC time line: \<^verbatim>\<open>add_job\<close>
  raises OverflowError after the old job has been removed, and no job for the reminder is
  left. The same happens through \<^verbatim>\<open>POST /reminders\<close> with this time: the row is stored
  as \<^verbatim>\<open>'scheduled'\<close> and no job exists.
\<close>

theorem schedule_job_overflow_counterexample:
  "map job_id (jobs standup_created) = [''job_r1''] \<and>
   fst (schedule_job utc_host ''r1'' (Aware (- 62135596800) 0 3600) standup_created)
     = Inl OverflowError \<and>
   jobs (snd (schedule_job utc_host ''r1'' (Aware (- 62135596800) 0 3600) standup_created)) = [] \<and>
   fst (create_reminder utc_host 1700000000 ''r1''
          (dentist\<lparr>in_when := Aware (- 62135596800) 0 3600\<rparr>) alice (init [alice, bob]))
     = Inl OverflowError \<and>
   map status (reminders (snd (create_reminder utc_host 1700000000 ''r1''
          (dentist\<lparr>in_when := Aware (- 62135596800) 0 3600\<rparr>) alice (init [alice, bob]))))
     = [''scheduled''] \<and>
   jobs (snd (create_reminder utc_host 1700000000 ''r1''
          (dentist\<lparr>in_when := Aware (- 62135596800) 0 3600\<rparr>) alice (init [alice, bob]))) = []"
  by (simp add: standup_created_eq demo_defs eval_defs utc_seconds_def)


text \<open>
  C7. For a reminder owned by the caller (in any status, so also \<^verbatim>\<open>'scheduled'\<close>), cancel
  returns normally, and so does a second cancel, which changes nothing further. The row
  is \<^verbatim>\<open>'cancelled'\<close> and no job of the reminder is pending. In the second call the job
  store raises JobLookupError for the absent job, and the request still succeeds.
\<close>

theorem cancel_idempotent:
  assumes "load_reminder s rid = Some rem" and "user_id rem = uid u"
  shows "fst (cancel_reminder rid u s) = Inr (rid, ''cancelled'') \<and>
     fst (cancel_reminder rid u (snd (cancel_reminder rid u s))) = Inr (rid, ''cancelled'') \<and>
     snd (cancel_reminder rid u (snd (cancel_reminder rid u s))) = snd (cancel_reminder rid u s) \<and>
     load_reminder (snd (cancel_reminder rid u s)) rid = Some (rem\<lparr>status := ''cancelled''\<rparr>) \<and>
     filter (\<lambda>j. job_id j = ''job_'' @ rid) (jobs (snd (cancel_reminder rid u s))) = [] \<and>
     remove_job (''job_'' @ rid) (jobs (snd (cancel_reminder rid u s))) = Inl JobLookupError"
proof -
  let ?s1 = "snd (cancel_reminder rid u s)"
  have id: "rem_id rem = rid" using assms(1) by (rule load_reminder_id)
  note c1 = cancel_reminder_owner[OF assms]
  have l1: "load_reminder ?s1 rid = Some (rem\<lparr>status := ''cancelled''\<rparr>)"
    using assms(1) id
    by (simp add: c1 load_reminder_update[where s = s and f = "\<lambda>r. r\<lparr>status := ''cancelled''\<rparr>"])
  have o1: "user_id (rem\<lparr>status := ''cancelled''\<rparr>) = uid u" using assms(2) by simp
  note c2 = cancel_reminder_owner[OF l1 o1]
  have idem: "update_where (\<lambda>r. rem_id r = rid) (\<lambda>r. r\<lparr>status := ''cancelled''\<rparr>)
                (update_where (\<lambda>r. rem_id r = rid) (\<lambda>r. r\<lparr>status := ''cancelled''\<rparr>) (reminders s))
              = update_where (\<lambda>r. rem_id r = rid) (\<lambda>r. r\<lparr>status := ''cancelled''\<rparr>) (reminders s)"
    by (simp add: update_where_def)
  have s2: "snd (cancel_reminder rid u ?s1) = ?s1"
    by (simp add: c2) (simp add: c1 idem)
  show ?thesis
    using l1 s2 by (simp add: c2) (simp add: c1 remove_job_absent)
qed

theorem cancel_idempotent_witness:
  "load_reminder standup_created ''r1'' =
     Some \<lparr>rem_id = ''r1'', user_id = 1, title = ''Standup'', body = Some [],
        when_ts = 1700000060, created_at = 1700000000, status = ''scheduled'',
        snooze_until = None, recurrence = Some ''daily'', repeat_interval = Some 86400,
        category = None, tags = None\<rparr> \<and>
   fst (cancel_reminder ''r1'' alice (snd (cancel_reminder ''r1'' alice standup_created)))
     = Inr (''r1'', ''cancelled'') \<and>
   snd (cancel_reminder ''r1'' alice (snd (cancel_reminder ''r1'' alice standup_created)))
     = snd (cancel_reminder ''r1'' alice standup_created) \<and>
   map status (reminders (snd (cancel_reminder ''r1'' alice standup_created))) = [''cancelled''] \<and>
   jobs (snd (cancel_reminder ''r1'' alice standup_created)) = []"
proof -
  have l: "load_reminder standup_created ''r1'' =
     Some \<lparr>rem_id = ''r1'', user_id = 1, title = ''Standup'', body = Some [],
        when_ts = 1700000060, created_at = 1700000000, status = ''scheduled'',
        snooze_until = None, recurrence = Some ''daily'', repeat_interval = Some 86400,
        category = None, tags = None\<rparr>"
    by (simp add: standup_created_eq load_reminder_def fetchone_def)
  have o: "user_id \<lparr>rem_id = ''r1'', user_id = 1, title = ''Standup'', body = Some [],
        when_ts = 1700000060, created_at = 1700000000, status = ''scheduled'',
        snooze_until = None, recurrence = Some ''daily'', repeat_interval = Some 86400,
        category = None, tags = None\<rparr> = uid alice"
    by (simp add: alice_def)
  have e: "map status (reminders (snd (cancel_reminder ''r1'' alice standup_created))) = [''cancelled'']"
      "jobs (snd (cancel_reminder ''r1'' alice standup_created)) = []"
    by (simp_all add: cancel_reminder_owner[OF l o])
       (simp_all add: standup_created_eq update_where_def)
  from cancel_idempotent [OF l o] l e show ?thesis by simp
qed





text \<open>
  C9. Every reminder that \<^verbatim>\<open>get_reminders\<close> lists for a user is a row owned by that
  user, and, ids being unique, no row owned by somebody else is listed. Snooze, cancel and
  delete on a reminder of another owner raise the 404 \<^verbatim>\<open>HTTPException\<close> with which the
  code answers an ownership mismatch, and leave the whole state as it was.
\<close>

theorem ownership_enforced:
  "(\<forall>v \<in> set (get_reminders u s). \<exists>r \<in> set (reminders s).
       user_id r = uid u \<and> out_id v = rem_id r \<and> out_title v = title r \<and>
       out_body v = body r \<and> out_when v = when_ts r \<and> out_status v = status r \<and>
       out_category v = category r \<and> out_tags v = tags r) \<and>
   (\<forall>r \<in> set (reminders s).
       user_id r \<noteq> uid u \<and> distinct (map rem_id (reminders s))
         \<longrightarrow> rem_id r \<notin> out_id ` set (get_reminders u s)) \<and>
   (\<forall>rem. load_reminder s rid = Some rem \<and> user_id rem \<noteq> uid u \<longrightarrow>
       snooze_reminder e now rid m u s = (Inl (HTTPException 404 ''Not found''), s) \<and>
       cancel_reminder rid u s = (Inl (HTTPException 404 ''Reminder not found''), s) \<and>
       delete_reminder rid u s = (Inl (HTTPException 404 ''Reminder not found''), s))"
proof (intro conjI ballI allI impI)
  fix v assume "v \<in> set (get_reminders u s)"
  then show "\<exists>r \<in> set (reminders s).
       user_id r = uid u \<and> out_id v = rem_id r \<and> out_title v = title r \<and>
       out_body v = body r \<and> out_when v = when_ts r \<and> out_status v = status r \<and>
       out_category v = category r \<and> out_tags v = tags r"
    by (auto simp: get_reminders_def)
next
  fix r assume r: "r \<in> set (reminders s)"
    and h: "user_id r \<noteq> uid u \<and> distinct (map rem_id (reminders s))"
  show "rem_id r \<notin> out_id ` set (get_reminders u s)"
  proof
    assume "rem_id r \<in> out_id ` set (get_reminders u s)"
    then obtain x where x: "x \<in> set (reminders s)" "user_id x = uid u" "rem_id x = rem_id r"
      by (auto simp: get_reminders_def)
    from h have "inj_on rem_id (set (reminders s))" by (simp add: distinct_map)
    then have "x = r" using x(1,3) r by (auto dest: inj_onD)
    then show False using x(2) h by simp
  qed
next
  fix rem assume "load_reminder s rid = Some rem \<and> user_id rem \<noteq> uid u"
  then show "snooze_reminder e now rid m u s = (Inl (HTTPException 404 ''Not found''), s)"
    and "cancel_reminder rid u s = (Inl (HTTPException 404 ''Reminder not found''), s)"
    and "delete_reminder rid u s = (Inl (HTTPException 404 ''Reminder not found''), s)"
    by (simp_all add: snooze_reminder_def cancel_reminder_def delete_reminder_def)
qed

theorem ownership_enforced_witness:
  "map out_id (get_reminders alice two_owners) = [''r1''] \<and>
   ''r2'' \<notin> out_id ` set (get_reminders alice two_owners) \<and>
   snooze_reminder utc_host 1700000000 ''r2'' 5 alice two_owners
     = (Inl (HTTPException 404 ''Not found''), two_owners) \<and>
   cancel_reminder ''r2'' alice two_owners
     = (Inl (HTTPException 404 ''Reminder not found''), two_owners) \<and>
   delete_reminder ''r2'' alice two_owners
     = (Inl (HTTPException 404 ''Reminder not found''), two_owners)"
proof -
  let ?r2 = "\<lparr>rem_id = ''r2'', user_id = 2, title = ''Standup'', body = Some [],
        when_ts = 1700000060, created_at = 1700000000, status = ''scheduled'',
        snooze_until = None, recurrence = Some ''daily'', repeat_interval = Some 86400,
        category = None, tags = None\<rparr>"
  have m: "?r2 \<in> set (reminders two_owners)" by (simp add: two_owners_eq)
  have d: "user_id ?r2 \<noteq> uid alice \<and> distinct (map rem_id (reminders two_owners))"
    by (simp add: two_owners_eq alice_def)
  have l: "load_reminder two_owners ''r2'' = Some ?r2 \<and> user_id ?r2 \<noteq> uid alice"
    by (simp add: two_owners_eq load_reminder_def fetchone_def alice_def)
  have g: "map out_id (get_reminders alice two_owners) = [''r1'']"
    by (simp add: two_owners_eq get_reminders_def alice_def)
  note o = ownership_enforced [where u = alice and s = two_owners and rid = "''r2''"
      and e = utc_host and now = 1700000000 and m = 5]
  from o m d have "rem_id ?r2 \<notin> out_id ` set (get_reminders alice two_owners)" by blast
  moreover from o l have
    "snooze_reminder utc_host 1700000000 ''r2'' 5 alice two_owners
       = (Inl (HTTPException 404 ''Not found''), two_owners) \<and>
     cancel_reminder ''r2'' alice two_owners
       = (Inl (HTTPException 404 ''Reminder not found''), two_owners) \<and>
     delete_reminder ''r2'' alice two_owners
       = (Inl (HTTPException 404 ''Reminder not found''), two_owners)"
    by blast
  ultimately show ?thesis using g by simp
qed

text \<open>
  C10. \<^verbatim>\<open>update_reminder_status\<close> (the specification's \<open>set_status\<close>) changes the status
  column of the rows with the given id and nothing else: the users, the job store and the
  SMTP log are untouched, the table keeps its length and order, every row keeps its id,
  owner, title, body, scheduled time, creation time, snooze time, recurrence label, repeat
  interval, category and tags, and the status of a row with another id stays as it was.
\<close>

theorem update_reminder_status_frame:
  "users (update_reminder_status rid st s) = users s \<and>
   jobs (update_reminder_status rid st s) = jobs s \<and>
   smtp_log (update_reminder_status rid st s) = smtp_log s \<and>
   length (reminders (update_reminder_status rid st s)) = length (reminders s) \<and>
   (\<forall>i < length (reminders s).
      rem_id (reminders (update_reminder_status rid st s) ! i) = rem_id (reminders s ! i) \<and>
      user_id (reminders (update_reminder_status rid st s) ! i) = user_id (reminders s ! i) \<and>
      title (reminders (update_reminder_status rid st s) ! i) = title (reminders s ! i) \<and>
      body (reminders (update_reminder_status rid st s) ! i) = body (reminders s ! i) \<and>
      when_ts (reminders (update_reminder_status rid st s) ! i) = when_ts (reminders s ! i) \<and>
      created_at (reminders (update_reminder_status rid st s) ! i)
        = created_at (reminders s ! i) \<and>
      snooze_until (reminders (update_reminder_status rid st s) ! i)
        = snooze_until (reminders s ! i) \<and>
      recurrence (reminders (update_reminder_status rid st s) ! i)
        = recurrence (reminders s ! i) \<and>
      repeat_interval (reminders (update_reminder_status rid st s) ! i)
        = repeat_interval (reminders s ! i) \<and>
      category (reminders (update_reminder_status rid st s) ! i) = category (reminders s ! i) \<and>
      tags (reminders (update_reminder_status rid st s) ! i) = tags (reminders s ! i) \<and>
      status (reminders (update_reminder_status rid st s) ! i)
        = (if rem_id (reminders s ! i) = rid then st else status (reminders s ! i)))"
  by (simp add: update_reminder_status_def update_where_def)

theorem update_reminder_status_frame_witness:
  "0 < length (reminders standup_created) \<and>
   title (reminders (update_reminder_status ''r1'' ''fired'' standup_created) ! 0) = ''Standup'' \<and>
   when_ts (reminders (update_reminder_status ''r1'' ''fired'' standup_created) ! 0) = 1700000060 \<and>
   status (reminders (update_reminder_status ''r1'' ''fired'' standup_created) ! 0) = ''fired'' \<and>
   status (reminders (update_reminder_status ''zz'' ''fired'' standup_created) ! 0) = ''scheduled''"
  using update_reminder_status_frame [of "''r1''" "''fired''" standup_created]
    update_reminder_status_frame [of "''zz''" "''fired''" standup_created]
  by (simp add: standup_created_eq)

end
